theory Spec2Isabelle
  imports Main "HOL-Library.AList"
begin

section \<open>Data model\<close>

text \<open>
  The room record and the local application state of \<^verbatim>\<open>App\<close> (src/unnamed/part_000).
  The declarations of \<^verbatim>\<open>GameState\<close>, \<^verbatim>\<open>GameScore\<close> and \<^verbatim>\<open>RoomData\<close> live in
  \<^verbatim>\<open>./types\<close>, which is not among the sources; they are reconstructed from the
  way \<^verbatim>\<open>App\<close> builds and reads them and from section 3 of the specification.

  JavaScript numbers (scores, lives, timestamps) are modelled as \<^typ>\<open>int\<close>;
  \<^verbatim>\<open>Math.floor(x / n)\<close> is then \<open>x div n\<close>.
\<close>

datatype GameState = MENU | LOBBY | PLAYING | SPECTATING | GAME_OVER

text \<open>Room status: \<^verbatim>\<open>'waiting' | 'playing' | 'finished'\<close>.\<close>

datatype room_status = Waiting | Playing | Finished

text \<open>Player status: \<^verbatim>\<open>'ready' | 'playing' | 'crashed' | 'finished'\<close>.\<close>

datatype player_status = Ready | PlayerPlaying | Crashed | PlayerFinished

record GameScore =
  current :: int
  best :: int
  coins :: int
  lives :: int

text \<open>
  Modelled from the spec: the \<^verbatim>\<open>PlayerEntry\<close> type of \<^verbatim>\<open>./types\<close>. Every field is
  optional in the stored document, because a dotted-path write such as
  \<^verbatim>\<open>players.<uid>.score\<close> on a participant that has no entry creates an entry
  holding that field only. The field \<^verbatim>\<open>status\<close> is named \<open>pstatus\<close> here, to keep
  it apart from the room's \<^verbatim>\<open>status\<close>.
\<close>

record PlayerEntry =
  uid :: "string option"
  displayName :: "string option"
  score :: "int option"
  isHost :: "bool option"
  pstatus :: "player_status option"

text \<open>
  Modelled from the spec: the \<^verbatim>\<open>RoomData\<close> type of \<^verbatim>\<open>./types\<close>. The field \<^verbatim>\<open>id\<close> is
  named \<open>roomCode\<close>. \<open>startTime\<close> is \<open>None\<close> both when the field is absent (as
  after creation) and when it is \<^verbatim>\<open>null\<close> (as after a lobby restart). \<open>players\<close>
  is the JavaScript object keyed by participant id, kept as an association
  list in key insertion order, which is the order of \<^verbatim>\<open>Object.keys\<close> and
  \<^verbatim>\<open>Object.values\<close>; a well-formed room has distinct keys.
\<close>

record RoomData =
  roomCode :: string
  createdAt :: int
  status :: room_status
  startTime :: "int option"
  players :: "(string \<times> PlayerEntry) list"

definition wf_room :: "RoomData \<Rightarrow> bool" where
  "wf_room d = distinct (map fst (players d))"

subsection \<open>Constants (src/unnamed/part_001)\<close>

definition INITIAL_LIVES :: int where
  "INITIAL_LIVES = 3"

definition GAME_DURATION_MS :: int where
  "GAME_DURATION_MS = 3 * 60 * 1000"

definition MAX_PLAYERS_PER_ROOM :: nat where
  "MAX_PLAYERS_PER_ROOM = 30"

definition STORAGE_KEY_HIGHSCORE :: string where
  "STORAGE_KEY_HIGHSCORE = ''neon_rush_highscore''"

definition STORAGE_KEY_XP :: string where
  "STORAGE_KEY_XP = ''neon_rush_total_xp''"

definition STORAGE_KEY_LEVEL :: string where
  "STORAGE_KEY_LEVEL = ''neon_rush_level''"

section \<open>The shared document store\<close>

text \<open>
  One field of an \<^verbatim>\<open>updateDoc\<close> call: \<^verbatim>\<open>status\<close>, \<^verbatim>\<open>startTime\<close>,
  \<^verbatim>\<open>players.<uid>\<close> (a whole entry), \<^verbatim>\<open>players.<uid>.score\<close> and
  \<^verbatim>\<open>players.<uid>.status\<close>. These are the only paths \<^verbatim>\<open>App\<close> writes.
\<close>

datatype doc_write =
    SetStatus room_status
  | SetStartTime "int option"
  | SetPlayer string PlayerEntry
  | SetPlayerScore string int
  | SetPlayerStatus string player_status

definition empty_entry :: PlayerEntry where
  "empty_entry = \<lparr>uid = None, displayName = None, score = None, isHost = None, pstatus = None\<rparr>"

text \<open>
  A write below \<^verbatim>\<open>players.<pid>\<close>: the entry is changed in place, or created (with
  the written field only) after the existing keys when \<open>pid\<close> has none.
\<close>

definition upd_entry ::
  "string \<Rightarrow> (PlayerEntry \<Rightarrow> PlayerEntry) \<Rightarrow> (string \<times> PlayerEntry) list \<Rightarrow> (string \<times> PlayerEntry) list" where
  "upd_entry pid f ps =
     AList.update pid (f (case map_of ps pid of None \<Rightarrow> empty_entry | Some p \<Rightarrow> p)) ps"

fun apply_write :: "doc_write \<Rightarrow> RoomData \<Rightarrow> RoomData" where
  "apply_write (SetStatus st) d = d\<lparr>status := st\<rparr>"
| "apply_write (SetStartTime t) d = d\<lparr>startTime := t\<rparr>"
| "apply_write (SetPlayer pid e) d = d\<lparr>players := AList.update pid e (players d)\<rparr>"
| "apply_write (SetPlayerScore pid v) d =
     d\<lparr>players := upd_entry pid (\<lambda>p. p\<lparr>score := Some v\<rparr>) (players d)\<rparr>"
| "apply_write (SetPlayerStatus pid st) d =
     d\<lparr>players := upd_entry pid (\<lambda>p. p\<lparr>pstatus := Some st\<rparr>) (players d)\<rparr>"

text \<open>
  The effect of an accepted \<^verbatim>\<open>updateDoc(ref, updates)\<close> on the stored document:
  every field path of \<open>updates\<close> is applied, the rest of the document stays.
\<close>

definition updateDoc :: "doc_write list \<Rightarrow> RoomData \<Rightarrow> RoomData" where
  "updateDoc ws d = fold apply_write ws d"

subsection \<open>Document references\<close>

text \<open>
  \<^verbatim>\<open>doc(db, 'rooms', id)\<close> of the Firestore client builds the reference of the
  document \<^verbatim>\<open>rooms/<id>\<close> and throws when the path is not a document path: the
  id must not contain \<^verbatim>\<open>//\<close>, and the path, split at \<^verbatim>\<open>/\<close> with the empty
  segments dropped, must have an even number of segments, \<^verbatim>\<open>rooms\<close> included. So
  the empty id and an id such as \<^verbatim>\<open>a/b\<close> throw, and an id without \<^verbatim>\<open>/\<close> that
  is not empty names a room. \<open>split_slash\<close> is \<^verbatim>\<open>id.split('/')\<close>.
\<close>

fun split_slash :: "string \<Rightarrow> string list" where
  "split_slash [] = [[]]"
| "split_slash (c # cs) =
     (if c = CHR ''/'' then [] # split_slash cs
      else (case split_slash cs of [] \<Rightarrow> [[c]] | seg # segs \<Rightarrow> (c # seg) # segs))"

fun has_double_slash :: "string \<Rightarrow> bool" where
  "has_double_slash (a # b # cs) = ((a = CHR ''/'' \<and> b = CHR ''/'') \<or> has_double_slash (b # cs))"
| "has_double_slash _ = False"

definition doc_throws :: "string \<Rightarrow> bool" where
  "doc_throws rid =
     (has_double_slash rid \<or>
      odd (1 + length (filter (\<lambda>seg. seg \<noteq> []) (split_slash rid))))"

section \<open>Effects of the handlers\<close>

text \<open>
  The messages shown by \<^verbatim>\<open>alert\<close>: \<^verbatim>\<open>"Room not found"\<close>,
  \<^verbatim>\<open>"Room full wait for next round"\<close>, \<^verbatim>\<open>"Game in progress"\<close> and
  \<^verbatim>\<open>"Could not create room."\<close>.
\<close>

datatype alert = RoomNotFound | RoomFull | RoomInProgress | CouldNotCreateRoom

text \<open>
  What a handler does besides changing the local state, in the order it does
  it: a write to the room document (\<^verbatim>\<open>updateDoc\<close> with the room id and the
  field paths, or \<^verbatim>\<open>setDoc\<close>), an alert, a \<^verbatim>\<open>console.error\<close>, a
  \<^verbatim>\<open>localStorage.setItem\<close>, and the two calls on the audio manager that
  \<^verbatim>\<open>startGame\<close> makes. \<open>Uncaught\<close> is an exception that leaves the handler:
  the promise of the \<^verbatim>\<open>async\<close> handler is rejected and nothing after the
  throwing call runs.
\<close>

datatype effect =
    UpdateDoc string "doc_write list"
  | SetDoc string RoomData
  | Alert alert
  | ConsoleError
  | StorageSet string int
  | AudioInit
  | AudioStartEngine
  | Uncaught

text \<open>
  The React state and refs of \<^verbatim>\<open>App\<close> that the room logic uses. The state
  \<^verbatim>\<open>score\<close> is named \<open>localScore\<close>. \<open>listener\<close> is the room whose document the
  active \<^verbatim>\<open>onSnapshot\<close> subscription observes, \<open>None\<close> when there is none.
\<close>

record app_state =
  gameState :: GameState
  localScore :: GameScore
  totalXP :: int
  level :: int
  earnedXP :: int
  userId :: string
  roomId :: "string option"
  roomData :: "RoomData option"
  lastScoreSync :: int
  latestScoreRef :: GameScore
  listener :: "string option"

text \<open>Truthiness of \<^verbatim>\<open>roomId\<close>: neither \<^verbatim>\<open>null\<close> nor the empty string.\<close>

definition in_room :: "app_state \<Rightarrow> bool" where
  "in_room s = (case roomId s of None \<Rightarrow> False | Some r \<Rightarrow> r \<noteq> [])"

section \<open>Game actions\<close>

text \<open>
  The fields that \<^verbatim>\<open>handleGameOver\<close> writes: the caller's own score, and its status,
  \<^verbatim>\<open>finalScore.lives > 0 ? 'finished' : 'crashed'\<close>.
\<close>

definition result_write :: "string \<Rightarrow> GameScore \<Rightarrow> doc_write list" where
  "result_write u sc =
     [SetPlayerScore u (current sc),
      SetPlayerStatus u (if lives sc > 0 then PlayerFinished else Crashed)]"

text \<open>
  \<^verbatim>\<open>handleGameOver(finalScore)\<close>: local statistics first, then, in a room, the
  write of the caller's own score and status and the switch to spectating.
\<close>

definition handleGameOver :: "app_state \<Rightarrow> GameScore \<Rightarrow> app_state \<times> effect list" where
  "handleGameOver s finalScore =
     (let xp = current finalScore div 100 + coins finalScore * 2;
          newTotalXP = totalXP s + xp;
          newLevel = newTotalXP div 1000 + 1;
          s1 = s\<lparr>earnedXP := xp, totalXP := newTotalXP, level := newLevel\<rparr>;
          e1 = [StorageSet STORAGE_KEY_XP newTotalXP, StorageSet STORAGE_KEY_LEVEL newLevel];
          s2 = (if current finalScore > best (localScore s)
                then s1\<lparr>localScore := (localScore s1)\<lparr>best := current finalScore\<rparr>\<rparr>
                else s1);
          e2 = (if current finalScore > best (localScore s)
                then [StorageSet STORAGE_KEY_HIGHSCORE (current finalScore)]
                else [])
      in case roomId s of
           None \<Rightarrow> (s2\<lparr>gameState := GAME_OVER\<rparr>, e1 @ e2)
         | Some rid \<Rightarrow>
             if rid \<noteq> [] \<and> userId s \<noteq> []
             then (s2\<lparr>gameState := SPECTATING\<rparr>,
                   e1 @ e2 @
                   [UpdateDoc rid (result_write (userId s) finalScore)])
             else (s2\<lparr>gameState := GAME_OVER\<rparr>, e1 @ e2))"

text \<open>
  The effect that copies the score state into the ref after a render in which
  the score changed (\<^verbatim>\<open>latestScoreRef.current = score\<close>).
\<close>

definition score_ref_effect :: "app_state \<Rightarrow> app_state" where
  "score_ref_effect s = s\<lparr>latestScoreRef := localScore s\<rparr>"

definition startGame :: "app_state \<Rightarrow> app_state \<times> effect list" where
  "startGame s =
     (let initialScore = \<lparr>current = 0, best = best (localScore s), coins = 0, lives = INITIAL_LIVES\<rparr>
      in (s\<lparr>localScore := initialScore, latestScoreRef := initialScore, earnedXP := 0,
            gameState := PLAYING\<rparr>,
          [AudioInit, AudioStartEngine]))"

text \<open>
  \<^verbatim>\<open>handleScoreUpdate(newScore)\<close> at wall-clock time \<open>now\<close> (\<^verbatim>\<open>Date.now()\<close>).
\<close>

definition handleScoreUpdate :: "app_state \<Rightarrow> int \<Rightarrow> GameScore \<Rightarrow> app_state \<times> effect list" where
  "handleScoreUpdate s now newScore =
     (let s1 = s\<lparr>localScore := (localScore s)\<lparr>current := current newScore,
                                               coins := coins newScore,
                                               lives := lives newScore\<rparr>,
                  latestScoreRef := newScore\<rparr>
      in case roomId s of
           None \<Rightarrow> (s1, [])
         | Some rid \<Rightarrow>
             if rid \<noteq> [] \<and> userId s \<noteq> [] \<and> now - lastScoreSync s > 2000
             then (s1\<lparr>lastScoreSync := now\<rparr>,
                   [UpdateDoc rid [SetPlayerScore (userId s) (current newScore)]])
             else (s1, []))"

section \<open>The room listener\<close>

text \<open>
  The host logic at the end of the snapshot callback. \<^verbatim>\<open>data.startTime && ...\<close>
  is false when the start time is missing and also when it is the number 0.
\<close>

definition timeIsUp :: "int \<Rightarrow> RoomData \<Rightarrow> bool" where
  "timeIsUp now d =
     (case startTime d of None \<Rightarrow> False | Some t \<Rightarrow> t \<noteq> 0 \<and> now - t > GAME_DURATION_MS)"

definition activePlayersCount :: "RoomData \<Rightarrow> nat" where
  "activePlayersCount d =
     length (filter (\<lambda>p. pstatus p = Some PlayerPlaying) (map snd (players d)))"

definition my_isHost :: "string \<Rightarrow> RoomData \<Rightarrow> bool" where
  "my_isHost u d = (case map_of (players d) u of None \<Rightarrow> False | Some p \<Rightarrow> isHost p = Some True)"

definition host_logic :: "string \<Rightarrow> string \<Rightarrow> int \<Rightarrow> RoomData \<Rightarrow> effect list" where
  "host_logic rid u now d =
     (if u \<noteq> [] \<and> my_isHost u d \<and> status d = Playing
      then (if timeIsUp now d \<or> activePlayersCount d = 0
            then [UpdateDoc rid [SetStatus Finished]]
            else [])
      else [])"

text \<open>\<^verbatim>\<open>myPlayer?.status\<close>, where \<^verbatim>\<open>myPlayer = data.players[userId]\<close>.\<close>

definition my_status :: "string \<Rightarrow> RoomData \<Rightarrow> player_status option" where
  "my_status u d = (case map_of (players d) u of None \<Rightarrow> None | Some p \<Rightarrow> pstatus p)"

text \<open>
  The three status blocks of the callback. \<open>gs\<close> is the \<^verbatim>\<open>gameState\<close> the
  callback closes over; the effect that installs the callback depends on
  \<^verbatim>\<open>gameState\<close>, \<^verbatim>\<open>userId\<close>, \<^verbatim>\<open>handleGameOver\<close> and \<^verbatim>\<open>startGame\<close>, so these are
  the values of the latest render. The score is read from \<open>latestScoreRef\<close>.
\<close>

definition on_playing :: "GameState \<Rightarrow> RoomData \<Rightarrow> app_state \<Rightarrow> app_state \<times> effect list" where
  "on_playing gs d s =
     (if status d = Playing
      then (if my_status (userId s) d = Some Crashed then (s, [])
            else if my_status (userId s) d = Some PlayerPlaying \<or> my_status (userId s) d = Some Ready
            then (if gs = LOBBY \<or> gs = SPECTATING \<or> gs = GAME_OVER then startGame s else (s, []))
            else (s, []))
      else (s, []))"

definition on_finished :: "GameState \<Rightarrow> RoomData \<Rightarrow> app_state \<Rightarrow> app_state \<times> effect list" where
  "on_finished gs d s =
     (if status d = Finished
      then (if gs = PLAYING \<or> gs = SPECTATING
            then (if gs = PLAYING then handleGameOver s (latestScoreRef s)
                  else (s\<lparr>gameState := GAME_OVER\<rparr>, []))
            else (s, []))
      else (s, []))"

definition on_waiting :: "GameState \<Rightarrow> RoomData \<Rightarrow> app_state \<Rightarrow> app_state \<times> effect list" where
  "on_waiting gs d s =
     (if status d = Waiting
      then (if gs = GAME_OVER \<or> gs = SPECTATING then (s\<lparr>gameState := LOBBY\<rparr>, []) else (s, []))
      else (s, []))"

text \<open>
  The \<^verbatim>\<open>onSnapshot\<close> success callback, run at time \<open>now\<close> on a delivered
  snapshot (\<open>None\<close>: \<^verbatim>\<open>docSnap.exists()\<close> is false). There is a callback only
  while \<^verbatim>\<open>roomId\<close> is truthy.
\<close>

definition on_snapshot :: "app_state \<Rightarrow> int \<Rightarrow> RoomData option \<Rightarrow> app_state \<times> effect list" where
  "on_snapshot s now snap =
     (case roomId s of
        None \<Rightarrow> (s, [])
      | Some rid \<Rightarrow>
          if rid = [] then (s, [])
          else (case snap of
                  None \<Rightarrow> (s, [])
                | Some d \<Rightarrow>
                    (let gs = gameState s;
                         s0 = s\<lparr>roomData := Some d\<rparr>;
                         (s1, e1) = on_playing gs d s0;
                         (s2, e2) = on_finished gs d s1;
                         (s3, e3) = on_waiting gs d s2
                     in (s3, e1 @ e2 @ e3 @ host_logic rid (userId s) now d))))"

text \<open>The \<^verbatim>\<open>onSnapshot\<close> error callback.\<close>

definition on_snapshot_error :: "app_state \<Rightarrow> app_state \<times> effect list" where
  "on_snapshot_error s = (s\<lparr>roomId := None, gameState := MENU\<rparr>, [ConsoleError])"

text \<open>
  The body of the room-listener effect, run again after a render that changed
  one of its dependencies: the previous subscription is cancelled; without a
  room the room data is cleared and nothing is subscribed, otherwise the
  room's document is subscribed.
\<close>

definition room_listener :: "app_state \<Rightarrow> app_state" where
  "room_listener s =
     (if in_room s then s\<lparr>listener := roomId s\<rparr>
      else s\<lparr>roomData := None, listener := None\<rparr>)"

section \<open>Lobby actions\<close>

text \<open>
  \<^verbatim>\<open>handleCreateRoom(playerName)\<close>: \<open>now\<close> is \<^verbatim>\<open>Date.now()\<close>, \<open>newRoomId\<close> the
  random room code, \<open>ok\<close> whether \<^verbatim>\<open>setDoc\<close> succeeds. The reference is built
  by \<^verbatim>\<open>doc\<close> before the \<^verbatim>\<open>try\<close>, so its exception is not caught.
\<close>

definition newRoom :: "string \<Rightarrow> int \<Rightarrow> string \<Rightarrow> string \<Rightarrow> RoomData" where
  "newRoom newRoomId now u playerName =
     \<lparr>roomCode = newRoomId, createdAt = now, status = Waiting, startTime = None,
      players = [(u, \<lparr>uid = Some u, displayName = Some playerName, score = Some 0,
                      isHost = Some True, pstatus = Some Ready\<rparr>)]\<rparr>"

definition handleCreateRoom ::
  "app_state \<Rightarrow> int \<Rightarrow> string \<Rightarrow> string \<Rightarrow> bool \<Rightarrow> app_state \<times> effect list" where
  "handleCreateRoom s now newRoomId playerName ok =
     (if userId s = [] then (s, [])
      else if doc_throws newRoomId then (s, [Uncaught])
      else if ok
      then (s\<lparr>roomId := Some newRoomId, gameState := LOBBY\<rparr>,
            [SetDoc newRoomId (newRoom newRoomId now (userId s) playerName)])
      else (s, [SetDoc newRoomId (newRoom newRoomId now (userId s) playerName),
                ConsoleError, Alert CouldNotCreateRoom]))"

text \<open>The outcome of \<^verbatim>\<open>getDoc\<close>: a thrown error, no document, or the document.\<close>

datatype read_result = ReadFailed | NotFound | Found RoomData

definition join_entry :: "string \<Rightarrow> string \<Rightarrow> PlayerEntry" where
  "join_entry u playerName =
     \<lparr>uid = Some u, displayName = Some playerName, score = Some 0,
      isHost = Some False, pstatus = Some Ready\<rparr>"

text \<open>
  \<^verbatim>\<open>handleJoinRoom(id, playerName)\<close>: \<open>rd\<close> is the outcome of \<^verbatim>\<open>getDoc\<close>, \<open>ok\<close>
  whether the \<^verbatim>\<open>updateDoc\<close> is accepted. Without a participant id the handler
  returns at once. The reference is built by \<^verbatim>\<open>doc\<close> before the \<^verbatim>\<open>try\<close>, so its
  exception is not caught: nothing is read, shown or written.
\<close>

definition handleJoinRoom ::
  "app_state \<Rightarrow> string \<Rightarrow> string \<Rightarrow> read_result \<Rightarrow> bool \<Rightarrow> app_state \<times> effect list" where
  "handleJoinRoom s rid playerName rd ok =
     (if userId s = [] then (s, [])
      else if doc_throws rid then (s, [Uncaught])
      else case rd of
             ReadFailed \<Rightarrow> (s, [ConsoleError])
           | NotFound \<Rightarrow> (s, [Alert RoomNotFound])
           | Found d \<Rightarrow>
               if length (map fst (players d)) \<ge> MAX_PLAYERS_PER_ROOM
               then (s, [Alert RoomFull])
               else if status d = Playing
               then (s, [Alert RoomInProgress])
               else if ok
               then (s\<lparr>roomId := Some rid, gameState := LOBBY\<rparr>,
                     [UpdateDoc rid [SetPlayer (userId s) (join_entry (userId s) playerName)]])
               else (s, [UpdateDoc rid [SetPlayer (userId s) (join_entry (userId s) playerName)],
                         ConsoleError]))"

text \<open>
  The field paths that \<^verbatim>\<open>handleStartMatch\<close> and \<^verbatim>\<open>handleRestartLobby\<close> collect
  for the players of the caller's latest snapshot. In both handlers \<open>ok\<close> says
  whether the awaited \<^verbatim>\<open>updateDoc\<close> is accepted; a rejection is logged.
\<close>

definition reset_players :: "player_status \<Rightarrow> RoomData \<Rightarrow> doc_write list" where
  "reset_players st d =
     concat (map (\<lambda>pid. [SetPlayerStatus pid st, SetPlayerScore pid 0]) (map fst (players d)))"

definition handleStartMatch :: "app_state \<Rightarrow> int \<Rightarrow> bool \<Rightarrow> app_state \<times> effect list" where
  "handleStartMatch s now ok =
     (case roomId s of
        None \<Rightarrow> (s, [])
      | Some rid \<Rightarrow>
          if rid = [] then (s, [])
          else (case roomData s of
                  None \<Rightarrow> (s, [])
                | Some d \<Rightarrow>
                    (s, UpdateDoc rid
                          (SetStatus Playing # SetStartTime (Some now) #
                           reset_players PlayerPlaying d) #
                        (if ok then [] else [ConsoleError]))))"

definition handleRestartLobby :: "app_state \<Rightarrow> bool \<Rightarrow> app_state \<times> effect list" where
  "handleRestartLobby s ok =
     (case roomId s of
        None \<Rightarrow> (s, [])
      | Some rid \<Rightarrow>
          if rid = [] then (s, [])
          else (case roomData s of
                  None \<Rightarrow> (s, [])
                | Some d \<Rightarrow>
                    (s, UpdateDoc rid
                          (SetStatus Waiting # SetStartTime None #
                           reset_players Ready d) #
                        (if ok then [] else [ConsoleError]))))"

definition handleLeaveRoom :: "app_state \<Rightarrow> app_state" where
  "handleLeaveRoom s = s\<lparr>roomId := None, gameState := MENU\<rparr>"

section \<open>Delivery of snapshots and of score updates\<close>

text \<open>
  The subscription delivers snapshots one after the other; each is handled by
  the callback in the state the previous one left. Each delivery carries the
  wall-clock time at which the callback runs.
\<close>

fun run_snapshots :: "app_state \<Rightarrow> (int \<times> RoomData option) list \<Rightarrow> app_state \<times> effect list" where
  "run_snapshots s [] = (s, [])"
| "run_snapshots s ((now, snap) # evs) =
     (let (s1, e1) = on_snapshot s now snap;
          (s2, e2) = run_snapshots s1 evs
      in (s2, e1 @ e2))"

text \<open>
  The game loop calls \<^verbatim>\<open>handleScoreUpdate\<close> again and again; the trace keeps every
  effect together with the time at which it was issued.
\<close>

fun run_scores :: "app_state \<Rightarrow> (int \<times> GameScore) list \<Rightarrow> app_state \<times> (int \<times> effect) list" where
  "run_scores s [] = (s, [])"
| "run_scores s ((now, sc) # evs) =
     (let (s1, e1) = handleScoreUpdate s now sc;
          (s2, e2) = run_scores s1 evs
      in (s2, map (Pair now) e1 @ e2))"

section \<open>Predicates on rooms\<close>

text \<open>The participant's own entry says that its round is over.\<close>

definition own_out :: "string \<Rightarrow> RoomData \<Rightarrow> bool" where
  "own_out u d = (my_status u d = Some Crashed \<or> my_status u d = Some PlayerFinished)"

text \<open>
  What the two field paths \<^verbatim>\<open>players.<pid>.status\<close> and \<^verbatim>\<open>players.<pid>.score\<close> of a
  round reset make of an entry (of no entry: an entry with these two fields).
\<close>

definition reset_entry :: "player_status \<Rightarrow> PlayerEntry option \<Rightarrow> PlayerEntry" where
  "reset_entry st e =
     (case e of None \<Rightarrow> empty_entry | Some p \<Rightarrow> p)\<lparr>pstatus := Some st, score := Some 0\<rparr>"

definition all_players :: "(PlayerEntry \<Rightarrow> bool) \<Rightarrow> RoomData \<Rightarrow> bool" where
  "all_players P d = list_all P (map snd (players d))"

definition playing0 :: "PlayerEntry \<Rightarrow> bool" where
  "playing0 p = (pstatus p = Some PlayerPlaying \<and> score p = Some 0)"

definition ready0 :: "PlayerEntry \<Rightarrow> bool" where
  "ready0 p = (pstatus p = Some Ready \<and> score p = Some 0)"

text \<open>
  Room membership comes with a participant id: \<^verbatim>\<open>roomId\<close> is only set by
  \<^verbatim>\<open>handleCreateRoom\<close> and \<^verbatim>\<open>handleJoinRoom\<close>, which return at once without one.
\<close>

definition has_id_in_room :: "app_state \<Rightarrow> bool" where
  "has_id_in_room s = (in_room s \<longrightarrow> userId s \<noteq> [])"

text \<open>The number of entries flagged as host.\<close>

definition host_count :: "RoomData \<Rightarrow> nat" where
  "host_count d = length (filter (\<lambda>p. isHost p = Some True) (map snd (players d)))"

text \<open>
  The \<^verbatim>\<open>updateDoc\<close> calls of \<^verbatim>\<open>App\<close>: every field-path list that one of its handlers
  passes to \<^verbatim>\<open>updateDoc\<close>, in some state and on some input. (\<^verbatim>\<open>setDoc\<close> is only
  used to create a room.)
\<close>

inductive app_update :: "doc_write list \<Rightarrow> bool" where
  from_snapshot: "UpdateDoc rid ws \<in> set (snd (on_snapshot s now snap)) \<Longrightarrow> app_update ws"
| from_join: "UpdateDoc rid ws \<in> set (snd (handleJoinRoom s r name rd ok)) \<Longrightarrow> app_update ws"
| from_start: "UpdateDoc rid ws \<in> set (snd (handleStartMatch s now ok)) \<Longrightarrow> app_update ws"
| from_restart: "UpdateDoc rid ws \<in> set (snd (handleRestartLobby s ok)) \<Longrightarrow> app_update ws"
| from_score: "UpdateDoc rid ws \<in> set (snd (handleScoreUpdate s now sc)) \<Longrightarrow> app_update ws"
| from_game_over: "UpdateDoc rid ws \<in> set (snd (handleGameOver s sc)) \<Longrightarrow> app_update ws"

text \<open>A field path that cannot make an entry a host.\<close>

fun keeps_hosts :: "doc_write \<Rightarrow> bool" where
  "keeps_hosts (SetPlayer k e) = (isHost e \<noteq> Some True)"
| "keeps_hosts _ = True"

section \<open>Example rooms and states\<close>

definition ex_score :: GameScore where
  "ex_score = \<lparr>current = 250, best = 100, coins = 3, lives = 2\<rparr>"

definition ex_score_at :: "int \<Rightarrow> GameScore" where
  "ex_score_at n = \<lparr>current = n, best = 100, coins = 0, lives = 3\<rparr>"

definition ex_state :: "GameState \<Rightarrow> string \<Rightarrow> app_state" where
  "ex_state gs u =
     \<lparr>gameState = gs, localScore = ex_score, totalXP = 40, level = 1, earnedXP = 0,
      userId = u, roomId = Some ''ROOM01'', roomData = None, lastScoreSync = 0,
      latestScoreRef = ex_score, listener = Some ''ROOM01''\<rparr>"

definition ex_menu_state :: app_state where
  "ex_menu_state = (ex_state MENU ''alice'')\<lparr>roomId := None, listener := None\<rparr>"

definition ex_entry :: "string \<Rightarrow> bool \<Rightarrow> player_status \<Rightarrow> int \<Rightarrow> PlayerEntry" where
  "ex_entry u h st sc =
     \<lparr>uid = Some u, displayName = Some u, score = Some sc, isHost = Some h, pstatus = Some st\<rparr>"

definition ex_room :: "room_status \<Rightarrow> int option \<Rightarrow> (string \<times> PlayerEntry) list \<Rightarrow> RoomData" where
  "ex_room st t ps = \<lparr>roomCode = ''ROOM01'', createdAt = 1000, status = st, startTime = t, players = ps\<rparr>"

definition ex_crashed_room :: RoomData where
  "ex_crashed_room =
     ex_room Playing (Some 5000)
       [(''alice'', ex_entry ''alice'' True PlayerPlaying 10),
        (''bob'', ex_entry ''bob'' False Crashed 70)]"

definition ex_timeout_room :: RoomData where
  "ex_timeout_room =
     ex_room Playing (Some 5000)
       [(''alice'', ex_entry ''alice'' True PlayerPlaying 10),
        (''bob'', ex_entry ''bob'' False PlayerPlaying 70)]"

definition ex_attrition_room :: RoomData where
  "ex_attrition_room =
     ex_room Playing (Some 5000)
       [(''alice'', ex_entry ''alice'' True PlayerFinished 120),
        (''bob'', ex_entry ''bob'' False Crashed 70)]"

definition ex_finished_room :: RoomData where
  "ex_finished_room =
     ex_room Finished (Some 5000)
       [(''alice'', ex_entry ''alice'' True PlayerFinished 120),
        (''bob'', ex_entry ''bob'' False Crashed 70)]"

definition ex_crowd :: "nat \<Rightarrow> RoomData" where
  "ex_crowd n =
     ex_room Waiting None
       (map (\<lambda>i. (replicate (Suc i) CHR ''p'', ex_entry (replicate (Suc i) CHR ''p'') (i = 0) Ready 0)) [0..<n])"

definition ex_unsigned_state :: app_state where
  "ex_unsigned_state = (ex_state MENU [])\<lparr>roomId := None, listener := None\<rparr>"

definition ex_host_state :: "RoomData \<Rightarrow> app_state" where
  "ex_host_state d = (ex_state GAME_OVER ''alice'')\<lparr>roomData := Some d\<rparr>"

definition ex_own_room :: RoomData where
  "ex_own_room =
     updateDoc [SetPlayer ''alice'' (join_entry ''alice'' ''Alice2'')]
       (newRoom ''ROOM01'' 1000 ''alice'' ''Alice'')"

definition ex_start_write :: "doc_write list" where
  "ex_start_write = SetStatus Playing # SetStartTime (Some 5000) # reset_players PlayerPlaying ex_own_room"

lemmas ex_defs = ex_state_def ex_score_def ex_entry_def ex_room_def

section \<open>Facts about the document store\<close>

lemma split_slash_plain: "CHR ''/'' \<notin> set rid \<Longrightarrow> split_slash rid = [rid]"
  by (induction rid) auto

lemma has_double_slash_plain: "CHR ''/'' \<notin> set rid \<Longrightarrow> \<not> has_double_slash rid"
  by (induction rid rule: has_double_slash.induct) auto

lemma doc_accepts_plain: "rid \<noteq> [] \<Longrightarrow> CHR ''/'' \<notin> set rid \<Longrightarrow> \<not> doc_throws rid"
  by (simp add: doc_throws_def split_slash_plain has_double_slash_plain)

lemma doc_throws_empty: "doc_throws []"
  by (simp add: doc_throws_def)

lemma map_of_upd_entry:
  "map_of (upd_entry pid f ps) k =
     (if k = pid then Some (f (case map_of ps pid of None \<Rightarrow> empty_entry | Some p \<Rightarrow> p))
      else map_of ps k)"
  by (simp add: upd_entry_def AList.update_conv')

lemma keys_upd_entry: "set (map fst (upd_entry pid f ps)) = insert pid (set (map fst ps))"
  by (auto simp add: upd_entry_def AList.update_keys)

lemma distinct_upd_entry: "distinct (map fst ps) \<Longrightarrow> distinct (map fst (upd_entry pid f ps))"
  by (simp add: upd_entry_def AList.distinct_update)

lemma set_update_subset: "set (AList.update k v al) \<subseteq> insert (k, v) (set al)"
  by (induction al) auto

lemma set_upd_entry:
  "set (upd_entry pid f ps) \<subseteq>
     insert (pid, f (case map_of ps pid of None \<Rightarrow> empty_entry | Some p \<Rightarrow> p)) (set ps)"
  unfolding upd_entry_def by (rule set_update_subset)

lemma join_write_doc:
  "map_of (players (updateDoc [SetPlayer u e] d)) u = Some e"
  "k \<noteq> u \<Longrightarrow> map_of (players (updateDoc [SetPlayer u e] d)) k = map_of (players d) k"
  "status (updateDoc [SetPlayer u e] d) = status d"
  "startTime (updateDoc [SetPlayer u e] d) = startTime d"
  "wf_room d \<Longrightarrow> wf_room (updateDoc [SetPlayer u e] d)"
  by (simp_all add: updateDoc_def AList.update_conv' wf_room_def AList.distinct_update)

lemma result_write_doc:
  "\<exists>p. map_of (players (updateDoc (result_write u sc) d)) u = Some p \<and>
       score p = Some (current sc) \<and>
       pstatus p = Some (if lives sc > 0 then PlayerFinished else Crashed)"
  "k \<noteq> u \<Longrightarrow> map_of (players (updateDoc (result_write u sc) d)) k = map_of (players d) k"
  "status (updateDoc (result_write u sc) d) = status d"
  by (simp_all add: updateDoc_def result_write_def map_of_upd_entry)

lemma all_players_join:
  assumes "all_players P d" and "P e"
  shows "all_players P (updateDoc [SetPlayer u e] d)"
  using assms set_update_subset [of u e "players d"]
  by (auto simp add: all_players_def list_all_iff updateDoc_def)

lemma wf_room_entries:
  assumes "wf_room d" and "\<And>k. k \<in> set (map fst (players d)) \<Longrightarrow> \<exists>p. map_of (players d) k = Some p \<and> P p"
  shows "all_players P d"
proof -
  have "P p" if "(k, p) \<in> set (players d)" for k p
  proof -
    have "map_of (players d) k = Some p"
      using assms(1) that by (simp add: wf_room_def)
    moreover have "k \<in> set (map fst (players d))"
      using that by force
    ultimately show ?thesis using assms(2) by fastforce
  qed
  then show ?thesis
    by (auto simp add: all_players_def list_all_iff)
qed

subsection \<open>Round resets\<close>

lemma fold_reset_map_of:
  "map_of (players (fold apply_write
      (concat (map (\<lambda>pid. [SetPlayerStatus pid st, SetPlayerScore pid 0]) pids)) d)) k =
     (if k \<in> set pids then Some (reset_entry st (map_of (players d) k)) else map_of (players d) k)"
proof (induction pids arbitrary: d)
  case Nil
  show ?case by simp
next
  case (Cons pid pids)
  let ?f = "\<lambda>pid. [SetPlayerStatus pid st, SetPlayerScore pid 0]"
  let ?d1 = "apply_write (SetPlayerScore pid 0) (apply_write (SetPlayerStatus pid st) d)"
  have step: "fold apply_write (concat (map ?f (pid # pids))) d = fold apply_write (concat (map ?f pids)) ?d1"
    by simp
  have d1: "map_of (players ?d1) k' =
      (if k' = pid then Some (reset_entry st (map_of (players d) pid)) else map_of (players d) k')" for k'
    by (simp add: map_of_upd_entry reset_entry_def split: option.splits)
  have idem: "reset_entry st (Some (reset_entry st e)) = reset_entry st e" for e
    by (simp add: reset_entry_def)
  show ?case
    unfolding step Cons.IH d1 by (simp add: idem)
qed

lemma fold_reset_status:
  "status (fold apply_write (concat (map (\<lambda>pid. [SetPlayerStatus pid st, SetPlayerScore pid 0]) pids)) d) = status d"
  by (induction pids arbitrary: d) simp_all

lemma fold_reset_startTime:
  "startTime (fold apply_write (concat (map (\<lambda>pid. [SetPlayerStatus pid st, SetPlayerScore pid 0]) pids)) d) = startTime d"
  by (induction pids arbitrary: d) simp_all

lemma fold_reset_keys:
  "set (map fst (players (fold apply_write (concat (map (\<lambda>pid. [SetPlayerStatus pid st, SetPlayerScore pid 0]) pids)) d)))
     = set (map fst (players d)) \<union> set pids"
proof (induction pids arbitrary: d)
  case Nil
  show ?case by simp
next
  case (Cons pid pids)
  let ?f = "\<lambda>pid. [SetPlayerStatus pid st, SetPlayerScore pid 0]"
  let ?d1 = "apply_write (SetPlayerScore pid 0) (apply_write (SetPlayerStatus pid st) d)"
  have step: "fold apply_write (concat (map ?f (pid # pids))) d = fold apply_write (concat (map ?f pids)) ?d1"
    by simp
  have k1: "set (map fst (players ?d1)) = insert pid (set (map fst (players d)))"
    using keys_upd_entry by simp
  show ?case
    unfolding step Cons.IH k1 by auto
qed

lemma fold_reset_wf:
  "wf_room d \<Longrightarrow> wf_room (fold apply_write (concat (map (\<lambda>pid. [SetPlayerStatus pid st, SetPlayerScore pid 0]) pids)) d)"
proof (induction pids arbitrary: d)
  case Nil
  then show ?case by simp
next
  case (Cons pid pids)
  let ?f = "\<lambda>pid. [SetPlayerStatus pid st, SetPlayerScore pid 0]"
  let ?d1 = "apply_write (SetPlayerScore pid 0) (apply_write (SetPlayerStatus pid st) d)"
  have step: "fold apply_write (concat (map ?f (pid # pids))) d = fold apply_write (concat (map ?f pids)) ?d1"
    by simp
  have "wf_room ?d1"
    using Cons.prems by (simp add: wf_room_def distinct_upd_entry)
  then show ?case
    unfolding step by (rule Cons.IH)
qed

lemma reset_doc:
  fixes st :: player_status and rd d :: RoomData and rs :: room_status and t :: "int option"
  defines "d' \<equiv> updateDoc (SetStatus rs # SetStartTime t # reset_players st rd) d"
  shows "status d' = rs" and "startTime d' = t"
    and "map_of (players d') k =
           (if k \<in> set (map fst (players rd)) then Some (reset_entry st (map_of (players d) k))
            else map_of (players d) k)"
    and "wf_room d \<Longrightarrow> set (map fst (players d)) \<subseteq> set (map fst (players rd)) \<Longrightarrow>
           all_players (\<lambda>p. pstatus p = Some st \<and> score p = Some 0) d'"
proof -
  let ?d0 = "apply_write (SetStartTime t) (apply_write (SetStatus rs) d)"
  have d': "d' = fold apply_write
      (concat (map (\<lambda>pid. [SetPlayerStatus pid st, SetPlayerScore pid 0]) (map fst (players rd)))) ?d0"
    by (simp add: d'_def updateDoc_def reset_players_def)
  have p0: "players ?d0 = players d" by simp
  show "status d' = rs" and "startTime d' = t"
    unfolding d' fold_reset_status fold_reset_startTime by simp_all
  show m: "map_of (players d') k =
           (if k \<in> set (map fst (players rd)) then Some (reset_entry st (map_of (players d) k))
            else map_of (players d) k)" for k
    unfolding d' fold_reset_map_of p0 by simp
  assume wf: "wf_room d" and sub: "set (map fst (players d)) \<subseteq> set (map fst (players rd))"
  have "wf_room ?d0" using wf by (simp add: wf_room_def)
  then have wf': "wf_room d'"
    unfolding d' by (rule fold_reset_wf)
  have keys: "set (map fst (players d')) = set (map fst (players d)) \<union> set (map fst (players rd))"
    unfolding d' fold_reset_keys p0 by simp
  show "all_players (\<lambda>p. pstatus p = Some st \<and> score p = Some 0) d'"
  proof (rule wf_room_entries [OF wf'])
    fix k
    assume "k \<in> set (map fst (players d'))"
    then have "k \<in> set (map fst (players rd))"
      using keys sub by auto
    then show "\<exists>p. map_of (players d') k = Some p \<and> pstatus p = Some st \<and> score p = Some 0"
      by (simp add: m reset_entry_def)
  qed
qed

section \<open>Facts about the snapshot callback\<close>

lemmas block_defs = on_playing_def on_finished_def on_waiting_def startGame_def handleGameOver_def

lemma on_snapshot_userId: "userId (fst (on_snapshot s now snap)) = userId s"
  by (simp add: on_snapshot_def block_defs Let_def split: option.splits)

lemma on_snapshot_roomId: "roomId (fst (on_snapshot s now snap)) = roomId s"
  by (simp add: on_snapshot_def block_defs Let_def split: option.splits)

lemma run_snapshots_userId: "userId (fst (run_snapshots s evs)) = userId s"
proof (induction evs arbitrary: s)
  case Nil
  show ?case by simp
next
  case (Cons ev evs)
  obtain now snap where ev: "ev = (now, snap)" by (cases ev)
  show ?case
    using Cons.IH [of "fst (on_snapshot s now snap)"]
    by (simp add: ev split_beta Let_def on_snapshot_userId)
qed

lemma host_logic_effects: "set (host_logic rid u now d) \<subseteq> {UpdateDoc rid [SetStatus Finished]}"
  by (auto simp add: host_logic_def)

lemma host_logic_iff:
  "UpdateDoc rid [SetStatus Finished] \<in> set (host_logic rid u now d) \<longleftrightarrow>
     u \<noteq> [] \<and> my_isHost u d \<and> status d = Playing \<and> (timeIsUp now d \<or> activePlayersCount d = 0)"
  by (simp add: host_logic_def)

lemma on_snapshot_update_iff:
  assumes "roomId s = Some rid" and "rid \<noteq> []" and "status d = Playing"
  shows "UpdateDoc rid ws \<in> set (snd (on_snapshot s now (Some d))) \<longleftrightarrow>
         UpdateDoc rid ws \<in> set (host_logic rid (userId s) now d)"
  using assms
  by (auto simp add: on_snapshot_def on_playing_def on_finished_def on_waiting_def startGame_def Let_def)

lemma timeIsUp_iff:
  "timeIsUp now d \<longleftrightarrow> (\<exists>t. startTime d = Some t \<and> t \<noteq> 0 \<and> now - t > GAME_DURATION_MS)"
  by (simp add: timeIsUp_def split: option.splits)

lemma on_snapshot_not_in_room:
  "roomId s = None \<or> roomId s = Some [] \<Longrightarrow> on_snapshot s now snap = (s, [])"
  by (auto simp add: on_snapshot_def)

lemma on_snapshot_missing_doc: "on_snapshot s now None = (s, [])"
  by (simp add: on_snapshot_def split: option.splits)

lemma on_snapshot_updates:
  "UpdateDoc r ws \<in> set (snd (on_snapshot s now snap)) \<Longrightarrow>
     (ws = [SetStatus Finished] \<and> (\<exists>d. snap = Some d \<and> my_isHost (userId s) d)) \<or>
     ws = result_write (userId s) (latestScoreRef s)"
  by (auto simp add: on_snapshot_def block_defs host_logic_def result_write_def Let_def
      split: option.splits if_splits)

lemma join_write_only:
  "UpdateDoc r ws \<in> set (snd (handleJoinRoom s rid name rd ok)) \<Longrightarrow>
     ws = [SetPlayer (userId s) (join_entry (userId s) name)]"
  by (auto simp add: handleJoinRoom_def split: read_result.splits if_splits)

lemma handleScoreUpdate_keeps:
  "roomId (fst (handleScoreUpdate s t sc)) = roomId s"
  "userId (fst (handleScoreUpdate s t sc)) = userId s"
  "gameState (fst (handleScoreUpdate s t sc)) = gameState s"
  "latestScoreRef (fst (handleScoreUpdate s t sc)) = sc"
  by (simp_all add: handleScoreUpdate_def Let_def split: option.splits)

section \<open>No resurrection\<close>

lemma on_snapshot_out_step:
  assumes "status d = Playing" and "own_out (userId s) d"
  shows "gameState (fst (on_snapshot s now (Some d))) = gameState s"
    and "AudioStartEngine \<notin> set (snd (on_snapshot s now (Some d)))"
    and "latestScoreRef (fst (on_snapshot s now (Some d))) = latestScoreRef s"
  using assms
  by (auto simp add: on_snapshot_def on_playing_def on_finished_def on_waiting_def own_out_def
      host_logic_def Let_def split: option.splits)

lemma on_snapshot_no_start:
  assumes "\<And>d. snap = Some d \<Longrightarrow> status d = Playing \<Longrightarrow> own_out (userId s) d"
  shows "AudioStartEngine \<notin> set (snd (on_snapshot s now snap))"
    and "gameState (fst (on_snapshot s now snap)) = PLAYING \<Longrightarrow> gameState s = PLAYING"
  using assms
  by (auto simp add: on_snapshot_def block_defs own_out_def
      host_logic_def Let_def split: option.splits if_splits)

lemma run_snapshots_no_start:
  assumes "\<forall>(t, snap) \<in> set evs. \<forall>d. snap = Some d \<and> status d = Playing \<longrightarrow> own_out (userId s) d"
  shows "AudioStartEngine \<notin> set (snd (run_snapshots s evs)) \<and>
         (gameState (fst (run_snapshots s evs)) = PLAYING \<longrightarrow> gameState s = PLAYING)"
  using assms
proof (induction evs arbitrary: s)
  case Nil
  show ?case by simp
next
  case (Cons ev evs)
  obtain now snap where ev: "ev = (now, snap)" by (cases ev)
  let ?s1 = "fst (on_snapshot s now snap)"
  have here: "\<And>d. snap = Some d \<Longrightarrow> status d = Playing \<Longrightarrow> own_out (userId s) d"
    using Cons.prems by (simp add: ev)
  have rest: "\<forall>(t, snap) \<in> set evs. \<forall>d. snap = Some d \<and> status d = Playing \<longrightarrow> own_out (userId ?s1) d"
    using Cons.prems by (simp add: on_snapshot_userId)
  have step1: "AudioStartEngine \<notin> set (snd (on_snapshot s now snap))"
    using here by (rule on_snapshot_no_start(1))
  have step2: "gameState ?s1 = PLAYING \<Longrightarrow> gameState s = PLAYING"
    using here by (rule on_snapshot_no_start(2))
  from Cons.IH [OF rest] step1 step2 show ?case
    by (simp add: ev split_beta Let_def)
qed

text \<open>
  C1. No resurrection. After any sequence \<open>evs\<close> of delivered snapshots, a
  snapshot whose room status is \<^verbatim>\<open>playing\<close> while the participant's own entry
  is \<^verbatim>\<open>crashed\<close> or \<^verbatim>\<open>finished\<close> leaves the local phase as it was and does not
  start the game (no engine start, no reset of the score ref). Hence over a
  whole sequence in which every \<^verbatim>\<open>playing\<close> snapshot shows the own entry as
  \<^verbatim>\<open>crashed\<close> or \<^verbatim>\<open>finished\<close>, the game is never started, and the phase can be
  \<open>PLAYING\<close> at the end only if it was so from the beginning.
\<close>

theorem no_resurrection:
  "(status d = Playing \<and> own_out (userId s) d \<longrightarrow>
      (let s' = fst (run_snapshots s evs); r = on_snapshot s' now (Some d)
       in gameState (fst r) = gameState s' \<and> AudioStartEngine \<notin> set (snd r) \<and>
          latestScoreRef (fst r) = latestScoreRef s')) \<and>
   ((\<forall>(t, snap) \<in> set evs. \<forall>d'. snap = Some d' \<and> status d' = Playing \<longrightarrow> own_out (userId s) d') \<longrightarrow>
      AudioStartEngine \<notin> set (snd (run_snapshots s evs)) \<and>
      (gameState (fst (run_snapshots s evs)) = PLAYING \<longrightarrow> gameState s = PLAYING))"
proof (intro conjI impI)
  assume a: "status d = Playing \<and> own_out (userId s) d"
  let ?s' = "fst (run_snapshots s evs)"
  have out: "own_out (userId ?s') d"
    using a by (simp add: run_snapshots_userId)
  from a have pl: "status d = Playing" by simp
  show "let s' = fst (run_snapshots s evs); r = on_snapshot s' now (Some d)
        in gameState (fst r) = gameState s' \<and> AudioStartEngine \<notin> set (snd r) \<and>
           latestScoreRef (fst r) = latestScoreRef s'"
    using on_snapshot_out_step [OF pl out, of now] by (simp add: Let_def)
next
  assume "\<forall>(t, snap) \<in> set evs. \<forall>d'. snap = Some d' \<and> status d' = Playing \<longrightarrow> own_out (userId s) d'"
  then show "AudioStartEngine \<notin> set (snd (run_snapshots s evs))"
    using run_snapshots_no_start by blast
next
  assume "\<forall>(t, snap) \<in> set evs. \<forall>d'. snap = Some d' \<and> status d' = Playing \<longrightarrow> own_out (userId s) d'"
    and "gameState (fst (run_snapshots s evs)) = PLAYING"
  then show "gameState s = PLAYING"
    using run_snapshots_no_start by blast
qed

lemma ex_crashed_room_out:
  "status ex_crashed_room = Playing \<and> own_out (userId (ex_state SPECTATING ''bob'')) ex_crashed_room"
  by (simp add: ex_crashed_room_def ex_room_def ex_state_def ex_entry_def own_out_def my_status_def)

theorem no_resurrection_witness:
  "gameState (fst (on_snapshot (fst (run_snapshots (ex_state SPECTATING ''bob'') [(6000, Some ex_crashed_room)]))
      7000 (Some ex_crashed_room))) = SPECTATING \<and>
   AudioStartEngine \<notin> set (snd (run_snapshots (ex_state SPECTATING ''bob'') [(6000, Some ex_crashed_room)]))"
proof -
  have h: "\<forall>(t, snap) \<in> set [(6000::int, Some ex_crashed_room)]. \<forall>d'. snap = Some d' \<and> status d' = Playing \<longrightarrow>
             own_out (userId (ex_state SPECTATING ''bob'')) d'"
    using ex_crashed_room_out by simp
  have g: "gameState (fst (run_snapshots (ex_state SPECTATING ''bob'') [(6000, Some ex_crashed_room)])) = SPECTATING"
    using on_snapshot_out_step(1) [of ex_crashed_room "ex_state SPECTATING ''bob''" 6000] ex_crashed_room_out
    by (simp add: split_beta ex_state_def)
  show ?thesis
    using no_resurrection [of ex_crashed_room "ex_state SPECTATING ''bob''" "[(6000, Some ex_crashed_room)]" 7000]
      ex_crashed_room_out h g
    by (simp add: Let_def)
qed

section \<open>Reconciling the same snapshot twice\<close>

lemma on_snapshot_second:
  assumes "roomId s = Some rid" and "rid \<noteq> []"
  shows "snd (on_snapshot (fst (on_snapshot s now1 (Some d))) now2 (Some d)) = host_logic rid (userId s) now2 d"
  using assms
  by (cases "gameState s"; cases "status d")
     (auto simp add: on_snapshot_def block_defs Let_def split: option.splits)

lemma on_snapshot_twice_effects:
  "set (snd (on_snapshot (fst (on_snapshot s now1 snap)) now2 snap)) \<subseteq>
     {UpdateDoc rid [SetStatus Finished] | rid. roomId s = Some rid}"
proof (cases snap)
  case None
  then show ?thesis by (simp add: on_snapshot_missing_doc)
next
  case (Some d)
  show ?thesis
  proof (cases "roomId s = None \<or> roomId s = Some []")
    case True
    then show ?thesis by (simp add: on_snapshot_not_in_room)
  next
    case False
    then obtain rid where rid: "roomId s = Some rid" "rid \<noteq> []" by auto
    show ?thesis
      using host_logic_effects [of rid "userId s" now2 d]
      by (auto simp add: Some on_snapshot_second [OF rid] rid)
  qed
qed

lemma on_snapshot_start_iff:
  assumes "roomId s = Some rid" and "rid \<noteq> []" and "status d = Playing"
    and "my_status (userId s) d = Some PlayerPlaying \<or> my_status (userId s) d = Some Ready"
  shows "AudioStartEngine \<in> set (snd (on_snapshot s now (Some d))) \<longleftrightarrow>
         gameState s = LOBBY \<or> gameState s = SPECTATING \<or> gameState s = GAME_OVER"
    and "gameState (fst (on_snapshot s now (Some d))) = PLAYING \<longleftrightarrow> gameState s \<noteq> MENU"
    and "gameState s = PLAYING \<Longrightarrow> fst (on_snapshot s now (Some d)) = s\<lparr>roomData := Some d\<rparr>"
  using assms
  by (cases "gameState s";
      auto simp add: on_snapshot_def on_playing_def on_finished_def on_waiting_def startGame_def
        host_logic_def Let_def)+

text \<open>
  C2. Idempotent reconciliation. When the callback handles the same snapshot
  a second time, in the state the first handling left, the second handling
  has no reconciliation side effect: it starts no game, forces no game-over,
  stores no statistics and writes no result. Its effect list is empty, except
  that the host arbiter, which is not part of the reconciliation and whose
  write of \<^verbatim>\<open>status = 'finished'\<close> is an idempotent duplicate, may issue that
  write; for a participant that is not the host the list is empty. In
  particular a \<^verbatim>\<open>playing\<close> snapshot with the own entry \<^verbatim>\<open>playing\<close> or \<^verbatim>\<open>ready\<close>
  starts the local game exactly when the local phase is \<open>LOBBY\<close>,
  \<open>SPECTATING\<close> or \<open>GAME_OVER\<close>; when the phase is already \<open>PLAYING\<close> it only
  stores the snapshot.
\<close>

theorem reconcile_twice:
  "set (snd (on_snapshot (fst (on_snapshot s now1 snap)) now2 snap)) \<subseteq>
     {UpdateDoc rid [SetStatus Finished] | rid. roomId s = Some rid} \<and>
   ((\<forall>d'. snap = Some d' \<longrightarrow> \<not> my_isHost (userId s) d') \<longrightarrow>
      snd (on_snapshot (fst (on_snapshot s now1 snap)) now2 snap) = []) \<and>
   (roomId s = Some r \<and> r \<noteq> [] \<and> status d = Playing \<and>
    (my_status (userId s) d = Some PlayerPlaying \<or> my_status (userId s) d = Some Ready) \<longrightarrow>
      (AudioStartEngine \<in> set (snd (on_snapshot s now (Some d))) \<longleftrightarrow>
         gameState s = LOBBY \<or> gameState s = SPECTATING \<or> gameState s = GAME_OVER) \<and>
      (gameState s = PLAYING \<longrightarrow>
         fst (on_snapshot s now (Some d)) = s\<lparr>roomData := Some d\<rparr> \<and>
         AudioStartEngine \<notin> set (snd (on_snapshot s now (Some d)))))"
proof (intro conjI impI)
  show "set (snd (on_snapshot (fst (on_snapshot s now1 snap)) now2 snap)) \<subseteq>
     {UpdateDoc rid [SetStatus Finished] | rid. roomId s = Some rid}"
    by (rule on_snapshot_twice_effects)
next
  assume nh: "\<forall>d'. snap = Some d' \<longrightarrow> \<not> my_isHost (userId s) d'"
  show "snd (on_snapshot (fst (on_snapshot s now1 snap)) now2 snap) = []"
  proof (cases snap)
    case None
    then show ?thesis by (simp add: on_snapshot_missing_doc)
  next
    case (Some d')
    show ?thesis
    proof (cases "roomId s = None \<or> roomId s = Some []")
      case True
      then show ?thesis by (simp add: on_snapshot_not_in_room)
    next
      case False
      then obtain rid where rid: "roomId s = Some rid" "rid \<noteq> []" by auto
      from nh Some have "host_logic rid (userId s) now2 d' = []"
        by (simp add: host_logic_def)
      then show ?thesis
        by (simp add: Some on_snapshot_second [OF rid])
    qed
  qed
next
  assume a: "roomId s = Some r \<and> r \<noteq> [] \<and> status d = Playing \<and>
    (my_status (userId s) d = Some PlayerPlaying \<or> my_status (userId s) d = Some Ready)"
  then show "AudioStartEngine \<in> set (snd (on_snapshot s now (Some d))) \<longleftrightarrow>
         gameState s = LOBBY \<or> gameState s = SPECTATING \<or> gameState s = GAME_OVER"
    using on_snapshot_start_iff(1) [of s r d now] by blast
  assume p: "gameState s = PLAYING"
  from a p show "fst (on_snapshot s now (Some d)) = s\<lparr>roomData := Some d\<rparr>"
    using on_snapshot_start_iff(3) [of s r d now] by blast
  from a p show "AudioStartEngine \<notin> set (snd (on_snapshot s now (Some d)))"
    using on_snapshot_start_iff(1) [of s r d now] by simp
qed

theorem reconcile_twice_witness:
  "AudioStartEngine \<in> set (snd (on_snapshot (ex_state LOBBY ''bob'') 6000 (Some ex_timeout_room))) \<and>
   snd (on_snapshot (fst (on_snapshot (ex_state LOBBY ''bob'') 6000 (Some ex_timeout_room))) 6000 (Some ex_timeout_room)) = [] \<and>
   fst (on_snapshot (ex_state PLAYING ''bob'') 6000 (Some ex_timeout_room)) =
     (ex_state PLAYING ''bob'')\<lparr>roomData := Some ex_timeout_room\<rparr> \<and>
   set (snd (on_snapshot (fst (on_snapshot (ex_state PLAYING ''bob'') 190000 (Some ex_finished_room)))
              190001 (Some ex_finished_room))) \<subseteq> {UpdateDoc ''ROOM01'' [SetStatus Finished]}"
proof -
  have pre: "roomId (ex_state g ''bob'') = Some ''ROOM01''" "''ROOM01'' \<noteq> []" "status ex_timeout_room = Playing"
    "my_status (userId (ex_state g ''bob'')) ex_timeout_room = Some PlayerPlaying"
    "gameState (ex_state g ''bob'') = g" for g
    by (simp_all add: ex_timeout_room_def ex_defs my_status_def)
  have nohost: "\<forall>d'. Some ex_timeout_room = Some d' \<longrightarrow> \<not> my_isHost (userId (ex_state LOBBY ''bob'')) d'"
    by (simp add: ex_timeout_room_def ex_defs my_isHost_def)
  have sub: "{UpdateDoc rid [SetStatus Finished] | rid. rid = ''ROOM01''} = {UpdateDoc ''ROOM01'' [SetStatus Finished]}"
    by auto
  show ?thesis
    using reconcile_twice [of "ex_state LOBBY ''bob''" 6000 "Some ex_timeout_room" 6000 "''ROOM01''" ex_timeout_room 6000]
      reconcile_twice [of "ex_state PLAYING ''bob''" 6000 "Some ex_timeout_room" 6000 "''ROOM01''" ex_timeout_room 6000]
      reconcile_twice [of "ex_state PLAYING ''bob''" 190000 "Some ex_finished_room" 190001 "''ROOM01''" ex_timeout_room 6000]
      pre nohost sub
    by simp
qed

section \<open>Host arbitration of the round end\<close>

text \<open>
  The snapshots a host evaluates: a participant in a room has an id, and a
  room is set to \<^verbatim>\<open>playing\<close> only together with a start time, the
  \<^verbatim>\<open>Date.now()\<close> of \<^verbatim>\<open>handleStartMatch\<close>.
\<close>

lemma enter_room_has_id:
  "has_id_in_room s \<Longrightarrow> has_id_in_room (fst (handleCreateRoom s now code name ok))"
  "has_id_in_room s \<Longrightarrow> has_id_in_room (fst (handleJoinRoom s rid name rd ok))"
  by (auto simp add: has_id_in_room_def in_room_def handleCreateRoom_def handleJoinRoom_def
      split: option.splits read_result.splits if_splits)

lemma reset_players_writes:
  "w \<in> set (reset_players st d) \<Longrightarrow> (\<exists>k. w = SetPlayerStatus k st \<or> w = SetPlayerScore k 0)"
  by (auto simp add: reset_players_def)

lemma app_update_start_time:
  "app_update ws \<Longrightarrow> SetStatus Playing \<in> set ws \<Longrightarrow> \<exists>now. SetStartTime (Some now) \<in> set ws"
proof (induction rule: app_update.induct)
  case (from_snapshot rid ws s now snap)
  then show ?case
    using on_snapshot_updates [of rid ws s now snap] by (auto simp add: result_write_def)
next
  case (from_join rid ws s r name rd ok)
  then show ?case
    using join_write_only [of rid ws s r name rd ok] by simp
next
  case (from_start rid ws s now ok)
  then show ?case
    by (auto simp add: handleStartMatch_def split: option.splits if_splits)
next
  case (from_restart rid ws s ok)
  then show ?case
    using reset_players_writes
    by (fastforce simp add: handleRestartLobby_def split: option.splits if_splits)
next
  case (from_score rid ws s now sc)
  then show ?case
    by (auto simp add: handleScoreUpdate_def Let_def split: option.splits if_splits)
next
  case (from_game_over rid ws s sc)
  then show ?case
    by (auto simp add: handleGameOver_def result_write_def Let_def split: option.splits if_splits)
qed

text \<open>
  C3. Host round-end arbitration. Let a participant in a room evaluate a
  \<^verbatim>\<open>playing\<close> snapshot that carries its start time \<open>t\<close> (a \<^verbatim>\<open>Date.now()\<close>, so not
  0). If its own entry is flagged host, it issues the write
  \<^verbatim>\<open>status = 'finished'\<close> if and only if \<open>now - t > GAME_DURATION_MS\<close> or no entry
  has status \<^verbatim>\<open>playing\<close>: the time-out suffices whatever the number of active
  players, and attrition suffices before the time-out. A participant that is
  not flagged host issues no write at all on such a snapshot.
\<close>

theorem host_round_end:
  "roomId s = Some rid \<and> rid \<noteq> [] \<and> userId s \<noteq> [] \<and>
   status d = Playing \<and> startTime d = Some t \<and> t \<noteq> 0 \<longrightarrow>
     (my_isHost (userId s) d \<longrightarrow>
        (UpdateDoc rid [SetStatus Finished] \<in> set (snd (on_snapshot s now (Some d))) \<longleftrightarrow>
           now - t > GAME_DURATION_MS \<or> activePlayersCount d = 0)) \<and>
     (\<not> my_isHost (userId s) d \<longrightarrow>
        (\<forall>ws. UpdateDoc rid ws \<notin> set (snd (on_snapshot s now (Some d)))))"
proof (intro impI conjI)
  assume a: "roomId s = Some rid \<and> rid \<noteq> [] \<and> userId s \<noteq> [] \<and>
   status d = Playing \<and> startTime d = Some t \<and> t \<noteq> 0"
    and h: "my_isHost (userId s) d"
  from a have "UpdateDoc rid [SetStatus Finished] \<in> set (snd (on_snapshot s now (Some d))) \<longleftrightarrow>
         UpdateDoc rid [SetStatus Finished] \<in> set (host_logic rid (userId s) now d)"
    by (simp add: on_snapshot_update_iff)
  also have "\<dots> \<longleftrightarrow> timeIsUp now d \<or> activePlayersCount d = 0"
    using a h by (simp add: host_logic_iff)
  also have "\<dots> \<longleftrightarrow> now - t > GAME_DURATION_MS \<or> activePlayersCount d = 0"
    using a by (simp add: timeIsUp_def)
  finally show "UpdateDoc rid [SetStatus Finished] \<in> set (snd (on_snapshot s now (Some d))) \<longleftrightarrow>
           now - t > GAME_DURATION_MS \<or> activePlayersCount d = 0" .
next
  assume a: "roomId s = Some rid \<and> rid \<noteq> [] \<and> userId s \<noteq> [] \<and>
   status d = Playing \<and> startTime d = Some t \<and> t \<noteq> 0"
    and h: "\<not> my_isHost (userId s) d"
  show "\<forall>ws. UpdateDoc rid ws \<notin> set (snd (on_snapshot s now (Some d)))"
    using a h by (simp add: on_snapshot_update_iff host_logic_def)
qed

theorem host_round_end_witness:
  "UpdateDoc ''ROOM01'' [SetStatus Finished] \<in> set (snd (on_snapshot (ex_state PLAYING ''alice'') 185001 (Some ex_timeout_room))) \<and>
   UpdateDoc ''ROOM01'' [SetStatus Finished] \<notin> set (snd (on_snapshot (ex_state PLAYING ''alice'') 185000 (Some ex_timeout_room))) \<and>
   UpdateDoc ''ROOM01'' [SetStatus Finished] \<in> set (snd (on_snapshot (ex_state SPECTATING ''alice'') 6000 (Some ex_attrition_room))) \<and>
   UpdateDoc ''ROOM01'' [SetStatus Finished] \<notin> set (snd (on_snapshot (ex_state PLAYING ''bob'') 185001 (Some ex_timeout_room)))"
proof -
  have pre: "roomId (ex_state g u) = Some ''ROOM01''" "''ROOM01'' \<noteq> []" "userId (ex_state g u) = u"
    "''alice'' \<noteq> []" "''bob'' \<noteq> []" for g u
    by (simp_all add: ex_state_def)
  have room: "status ex_timeout_room = Playing" "startTime ex_timeout_room = Some 5000"
    "activePlayersCount ex_timeout_room = 2" "my_isHost ''alice'' ex_timeout_room"
    "\<not> my_isHost ''bob'' ex_timeout_room"
    by (simp_all add: ex_timeout_room_def ex_room_def ex_entry_def my_isHost_def activePlayersCount_def)
  have att: "status ex_attrition_room = Playing" "startTime ex_attrition_room = Some 5000"
    "activePlayersCount ex_attrition_room = 0" "my_isHost ''alice'' ex_attrition_room"
    by (simp_all add: ex_attrition_room_def ex_room_def ex_entry_def my_isHost_def activePlayersCount_def)
  show ?thesis
    using host_round_end [of "ex_state PLAYING ''alice''" "''ROOM01''" ex_timeout_room 5000 185001]
      host_round_end [of "ex_state PLAYING ''alice''" "''ROOM01''" ex_timeout_room 5000 185000]
      host_round_end [of "ex_state SPECTATING ''alice''" "''ROOM01''" ex_attrition_room 5000 6000]
      host_round_end [of "ex_state PLAYING ''bob''" "''ROOM01''" ex_timeout_room 5000 185001]
      pre room att
    by (simp add: GAME_DURATION_MS_def)
qed

section \<open>Joining a room\<close>

text \<open>
  C4, as the code has it. A caller without a participant id (sign-in still
  pending) is ignored: \<^verbatim>\<open>handleJoinRoom\<close> reads nothing, shows nothing and writes
  nothing. For a caller with an id and a room id that \<^verbatim>\<open>doc\<close> accepts, it
  answers a missing room with the alert \<open>RoomNotFound\<close>, a room with
  \<open>MAX_PLAYERS_PER_ROOM\<close> or more entries with \<open>RoomFull\<close>, and otherwise a
  \<^verbatim>\<open>playing\<close> room with \<open>RoomInProgress\<close>; in these cases the alert is the only
  effect and the local state is unchanged. In a \<^verbatim>\<open>waiting\<close> or \<^verbatim>\<open>finished\<close> room
  below capacity it writes \<^verbatim>\<open>players.<uid>\<close>, which adds or replaces the
  caller's entry, with score 0, status \<^verbatim>\<open>ready\<close> and no host flag, and leaves
  the other entries and the room status alone; when the write is accepted
  the caller enters the lobby of that room.
\<close>

theorem join_outcomes:
  "(userId s = [] \<longrightarrow> handleJoinRoom s rid name rd ok = (s, [])) \<and>
   (userId s \<noteq> [] \<and> \<not> doc_throws rid \<longrightarrow>
     handleJoinRoom s rid name NotFound ok = (s, [Alert RoomNotFound]) \<and>
     (length (players d) \<ge> MAX_PLAYERS_PER_ROOM \<longrightarrow>
        handleJoinRoom s rid name (Found d) ok = (s, [Alert RoomFull])) \<and>
     (length (players d) < MAX_PLAYERS_PER_ROOM \<and> status d = Playing \<longrightarrow>
        handleJoinRoom s rid name (Found d) ok = (s, [Alert RoomInProgress])) \<and>
     (length (players d) < MAX_PLAYERS_PER_ROOM \<and> (status d = Waiting \<or> status d = Finished) \<longrightarrow>
        (let e = \<lparr>uid = Some (userId s), displayName = Some name, score = Some 0,
                  isHost = Some False, pstatus = Some Ready\<rparr>;
             w = [SetPlayer (userId s) e];
             d' = updateDoc w d
         in handleJoinRoom s rid name (Found d) ok =
              (if ok then (s\<lparr>roomId := Some rid, gameState := LOBBY\<rparr>, [UpdateDoc rid w])
               else (s, [UpdateDoc rid w, ConsoleError])) \<and>
            map_of (players d') (userId s) = Some e \<and>
            (\<forall>k. k \<noteq> userId s \<longrightarrow> map_of (players d') k = map_of (players d) k) \<and>
            status d' = status d)))"
  by (auto simp add: handleJoinRoom_def Let_def join_write_doc join_entry_def)

text \<open>
  The claim without the condition on the caller fails: while sign-in is
  pending, a join to a room that does not exist shows no alert at all.
\<close>

theorem join_outcomes_counterexample:
  "userId ex_unsigned_state = [] \<and>
   handleJoinRoom ex_unsigned_state ''ROOM01'' ''Carol'' NotFound True = (ex_unsigned_state, []) \<and>
   Alert RoomNotFound \<notin> set (snd (handleJoinRoom ex_unsigned_state ''ROOM01'' ''Carol'' NotFound True))"
  by (simp add: ex_unsigned_state_def ex_state_def handleJoinRoom_def)

theorem join_outcomes_witness:
  "handleJoinRoom (ex_state MENU ''carol'') ''ROOM01'' ''Carol'' NotFound True =
     (ex_state MENU ''carol'', [Alert RoomNotFound]) \<and>
   handleJoinRoom (ex_state MENU ''carol'') ''ROOM01'' ''Carol'' (Found (ex_crowd 30)) True =
     (ex_state MENU ''carol'', [Alert RoomFull]) \<and>
   handleJoinRoom (ex_state MENU ''carol'') ''ROOM01'' ''Carol'' (Found ex_timeout_room) True =
     (ex_state MENU ''carol'', [Alert RoomInProgress]) \<and>
   handleJoinRoom (ex_state MENU ''carol'') ''ROOM01'' ''Carol'' (Found ex_finished_room) True =
     ((ex_state MENU ''carol'')\<lparr>roomId := Some ''ROOM01'', gameState := LOBBY\<rparr>,
      [UpdateDoc ''ROOM01'' [SetPlayer ''carol''
         \<lparr>uid = Some ''carol'', displayName = Some ''Carol'', score = Some 0,
          isHost = Some False, pstatus = Some Ready\<rparr>]]) \<and>
   snd (handleJoinRoom (ex_state MENU ''carol'') ''ROOM01'' ''Carol'' (Found (ex_crowd 29)) True) =
     [UpdateDoc ''ROOM01'' [SetPlayer ''carol''
         \<lparr>uid = Some ''carol'', displayName = Some ''Carol'', score = Some 0,
          isHost = Some False, pstatus = Some Ready\<rparr>]] \<and>
   handleJoinRoom ex_unsigned_state ''ROOM01'' ''Carol'' (Found ex_finished_room) True =
     (ex_unsigned_state, []) \<and>
   \<not> doc_throws ''ROOM01'' \<and> doc_throws [] \<and> doc_throws ''A/B'' \<and> doc_throws ''A//B/C'' \<and>
   handleJoinRoom (ex_state MENU ''carol'') [] ''Carol'' NotFound True =
     (ex_state MENU ''carol'', [Uncaught])"
proof -
  have u: "userId (ex_state MENU ''carol'') = ''carol''" "''carol'' \<noteq> []"
    "userId ex_unsigned_state = []"
    by (simp_all add: ex_state_def ex_unsigned_state_def)
  have ids: "\<not> doc_throws ''ROOM01''" "doc_throws []" "doc_throws ''A/B''" "doc_throws ''A//B/C''"
    by (simp_all add: doc_throws_def)
  have full: "length (players (ex_crowd 30)) \<ge> MAX_PLAYERS_PER_ROOM"
    by (simp add: ex_crowd_def ex_room_def MAX_PLAYERS_PER_ROOM_def)
  have crowd: "length (players (ex_crowd 29)) < MAX_PLAYERS_PER_ROOM \<and>
      (status (ex_crowd 29) = Waiting \<or> status (ex_crowd 29) = Finished)"
    by (simp add: ex_crowd_def ex_room_def MAX_PLAYERS_PER_ROOM_def)
  have playing: "length (players ex_timeout_room) < MAX_PLAYERS_PER_ROOM \<and> status ex_timeout_room = Playing"
    by (simp add: ex_timeout_room_def ex_room_def MAX_PLAYERS_PER_ROOM_def)
  have fin: "length (players ex_finished_room) < MAX_PLAYERS_PER_ROOM \<and>
      (status ex_finished_room = Waiting \<or> status ex_finished_room = Finished)"
    by (simp add: ex_finished_room_def ex_room_def MAX_PLAYERS_PER_ROOM_def)
  have thrown: "handleJoinRoom (ex_state MENU ''carol'') [] ''Carol'' NotFound True =
     (ex_state MENU ''carol'', [Uncaught])"
    by (simp add: handleJoinRoom_def u ids)
  show ?thesis
    using join_outcomes [of "ex_state MENU ''carol''" "''ROOM01''" "''Carol''" NotFound True "ex_crowd 30"]
      join_outcomes [of "ex_state MENU ''carol''" "''ROOM01''" "''Carol''" NotFound True ex_timeout_room]
      join_outcomes [of "ex_state MENU ''carol''" "''ROOM01''" "''Carol''" NotFound True ex_finished_room]
      join_outcomes [of "ex_state MENU ''carol''" "''ROOM01''" "''Carol''" NotFound True "ex_crowd 29"]
      join_outcomes [of ex_unsigned_state "''ROOM01''" "''Carol''" "Found ex_finished_room" True ex_finished_room]
      u ids full crowd playing fin thrown
    by (simp add: Let_def)
qed

section \<open>A finished room ends the local game\<close>

lemma on_snapshot_finished_playing:
  assumes "roomId s = Some rid" and "rid \<noteq> []" and "userId s \<noteq> []" and "status d = Finished"
    and "gameState s = PLAYING"
  shows "gameState (fst (on_snapshot s now (Some d))) = SPECTATING"
    and "UpdateDoc r ws \<in> set (snd (on_snapshot s now (Some d))) \<longleftrightarrow>
           r = rid \<and> ws = result_write (userId s) (latestScoreRef s)"
    and "gameState (fst (on_snapshot (fst (on_snapshot s now (Some d))) now2 (Some d))) = GAME_OVER"
    and "snd (on_snapshot (fst (on_snapshot s now (Some d))) now2 (Some d)) = []"
  using assms
  by (auto simp add: on_snapshot_def block_defs host_logic_def result_write_def Let_def)

lemma on_snapshot_finished_spectating:
  assumes "roomId s = Some rid" and "rid \<noteq> []" and "status d = Finished"
    and "gameState s = SPECTATING"
  shows "on_snapshot s now (Some d) = (s\<lparr>roomData := Some d, gameState := GAME_OVER\<rparr>, [])"
  using assms
  by (auto simp add: on_snapshot_def block_defs host_logic_def Let_def)

lemma handleScoreUpdate_synced:
  "roomId (score_ref_effect (fst (handleScoreUpdate s t sc))) = roomId s"
  "userId (score_ref_effect (fst (handleScoreUpdate s t sc))) = userId s"
  "gameState (score_ref_effect (fst (handleScoreUpdate s t sc))) = gameState s"
  "result_write u (latestScoreRef (score_ref_effect (fst (handleScoreUpdate s t sc)))) = result_write u sc"
  by (simp_all add: handleScoreUpdate_def score_ref_effect_def result_write_def Let_def split: option.splits)

text \<open>
  C5. Let a \<^verbatim>\<open>finished\<close> snapshot arrive for a participant in a room. If the
  local phase is \<open>PLAYING\<close>, the callback runs \<^verbatim>\<open>handleGameOver\<close> on the score ref
  as it is at that moment: its single document write sets the caller's own
  score to the current score of the ref and its status to \<^verbatim>\<open>finished\<close> when
  lives remain and to \<^verbatim>\<open>crashed\<close> otherwise, touching no other entry; the phase
  becomes \<open>SPECTATING\<close>, and the next delivery of the snapshot moves it to
  \<open>GAME_OVER\<close> without any effect. A score update that precedes the snapshot is
  the score that is written, whether or not the effect that copies the score
  state into the ref has run in between. If the phase is already
  \<open>SPECTATING\<close>, the snapshot moves it to \<open>GAME_OVER\<close> directly.
\<close>

theorem finished_forces_game_over:
  "roomId s = Some rid \<and> rid \<noteq> [] \<and> userId s \<noteq> [] \<and> status d = Finished \<longrightarrow>
     (gameState s = PLAYING \<longrightarrow>
        (let r = on_snapshot s now (Some d); w = result_write (userId s) (latestScoreRef s)
         in gameState (fst r) = SPECTATING \<and>
            UpdateDoc rid w \<in> set (snd r) \<and>
            (\<forall>r' ws. UpdateDoc r' ws \<in> set (snd r) \<longrightarrow> r' = rid \<and> ws = w) \<and>
            (\<exists>p. map_of (players (updateDoc w d)) (userId s) = Some p \<and>
                 score p = Some (current (latestScoreRef s)) \<and>
                 pstatus p = Some (if lives (latestScoreRef s) > 0 then PlayerFinished else Crashed)) \<and>
            (\<forall>k. k \<noteq> userId s \<longrightarrow> map_of (players (updateDoc w d)) k = map_of (players d) k) \<and>
            gameState (fst (on_snapshot (fst r) now2 (Some d))) = GAME_OVER \<and>
            snd (on_snapshot (fst r) now2 (Some d)) = []) \<and>
        UpdateDoc rid (result_write (userId s) sc) \<in>
          set (snd (on_snapshot (fst (handleScoreUpdate s t sc)) now (Some d))) \<and>
        UpdateDoc rid (result_write (userId s) sc) \<in>
          set (snd (on_snapshot (score_ref_effect (fst (handleScoreUpdate s t sc))) now (Some d)))) \<and>
     (gameState s = SPECTATING \<longrightarrow>
        on_snapshot s now (Some d) = (s\<lparr>roomData := Some d, gameState := GAME_OVER\<rparr>, []))"
proof (intro impI conjI)
  assume a: "roomId s = Some rid \<and> rid \<noteq> [] \<and> userId s \<noteq> [] \<and> status d = Finished"
  {
    assume p: "gameState s = PLAYING"
    note fp = on_snapshot_finished_playing [of s rid d, OF _ _ _ _ p]
    show "let r = on_snapshot s now (Some d); w = result_write (userId s) (latestScoreRef s)
         in gameState (fst r) = SPECTATING \<and>
            UpdateDoc rid w \<in> set (snd r) \<and>
            (\<forall>r' ws. UpdateDoc r' ws \<in> set (snd r) \<longrightarrow> r' = rid \<and> ws = w) \<and>
            (\<exists>p. map_of (players (updateDoc w d)) (userId s) = Some p \<and>
                 score p = Some (current (latestScoreRef s)) \<and>
                 pstatus p = Some (if lives (latestScoreRef s) > 0 then PlayerFinished else Crashed)) \<and>
            (\<forall>k. k \<noteq> userId s \<longrightarrow> map_of (players (updateDoc w d)) k = map_of (players d) k) \<and>
            gameState (fst (on_snapshot (fst r) now2 (Some d))) = GAME_OVER \<and>
            snd (on_snapshot (fst r) now2 (Some d)) = []"
      unfolding Let_def
      using a fp(1) [of now] fp(2) [of _ _ now] fp(3) [of now now2] fp(4) [of now now2]
        result_write_doc(1) [of "userId s" "latestScoreRef s" d]
        result_write_doc(2) [of _ "userId s" "latestScoreRef s" d]
      by simp
    let ?s1 = "fst (handleScoreUpdate s t sc)"
    have "UpdateDoc rid (result_write (userId ?s1) (latestScoreRef ?s1)) \<in>
          set (snd (on_snapshot ?s1 now (Some d)))"
      using a p on_snapshot_finished_playing(2) [of ?s1 rid d rid _ now]
      by (simp add: handleScoreUpdate_keeps)
    then show "UpdateDoc rid (result_write (userId s) sc) \<in>
          set (snd (on_snapshot (fst (handleScoreUpdate s t sc)) now (Some d)))"
      by (simp add: handleScoreUpdate_keeps)
    let ?s2 = "score_ref_effect (fst (handleScoreUpdate s t sc))"
    have "UpdateDoc rid (result_write (userId ?s2) (latestScoreRef ?s2)) \<in>
          set (snd (on_snapshot ?s2 now (Some d)))"
      using a p on_snapshot_finished_playing(2) [of ?s2 rid d rid _ now]
      by (simp add: handleScoreUpdate_synced)
    then show "UpdateDoc rid (result_write (userId s) sc) \<in>
          set (snd (on_snapshot (score_ref_effect (fst (handleScoreUpdate s t sc))) now (Some d)))"
      by (simp add: handleScoreUpdate_synced)
  }
  assume "gameState s = SPECTATING"
  with a show "on_snapshot s now (Some d) = (s\<lparr>roomData := Some d, gameState := GAME_OVER\<rparr>, [])"
    by (simp add: on_snapshot_finished_spectating)
qed

theorem finished_forces_game_over_witness:
  "gameState (fst (on_snapshot (ex_state PLAYING ''bob'') 190000 (Some ex_finished_room))) = SPECTATING \<and>
   UpdateDoc ''ROOM01'' [SetPlayerScore ''bob'' 250, SetPlayerStatus ''bob'' PlayerFinished]
     \<in> set (snd (on_snapshot (ex_state PLAYING ''bob'') 190000 (Some ex_finished_room))) \<and>
   gameState (fst (on_snapshot (fst (on_snapshot (ex_state PLAYING ''bob'') 190000 (Some ex_finished_room)))
       190001 (Some ex_finished_room))) = GAME_OVER \<and>
   gameState (fst (on_snapshot (ex_state SPECTATING ''bob'') 190000 (Some ex_finished_room))) = GAME_OVER"
proof -
  have pre: "roomId (ex_state g ''bob'') = Some ''ROOM01'' \<and> ''ROOM01'' \<noteq> [] \<and>
      userId (ex_state g ''bob'') \<noteq> [] \<and> status ex_finished_room = Finished" for g
    by (simp add: ex_state_def ex_finished_room_def ex_room_def)
  have g: "gameState (ex_state g ''bob'') = g" for g
    by (simp add: ex_state_def)
  have w: "result_write (userId (ex_state PLAYING ''bob'')) (latestScoreRef (ex_state PLAYING ''bob'')) =
      [SetPlayerScore ''bob'' 250, SetPlayerStatus ''bob'' PlayerFinished]"
    by (simp add: result_write_def ex_state_def ex_score_def)
  show ?thesis
    using finished_forces_game_over [of "ex_state PLAYING ''bob''" "''ROOM01''" ex_finished_room 190000 190001 ex_score 0]
      finished_forces_game_over [of "ex_state SPECTATING ''bob''" "''ROOM01''" ex_finished_room 190000 190001 ex_score 0]
      pre g w
    by (simp add: Let_def)
qed

section \<open>Restarting the lobby and starting a match\<close>

lemma ex_finished_room_wf:
  "wf_room ex_finished_room \<and>
   set (map fst (players ex_finished_room)) \<subseteq> set (map fst (players ex_finished_room))"
  by (simp add: wf_room_def ex_finished_room_def ex_room_def)

lemma ex_host_state_room:
  "roomId (ex_host_state d) = Some ''ROOM01'' \<and> ''ROOM01'' \<noteq> [] \<and> roomData (ex_host_state d) = Some d"
  by (simp add: ex_host_state_def ex_state_def)

text \<open>
  C6. In a room, with \<open>rd\<close> the caller's latest snapshot,
  \<^verbatim>\<open>handleRestartLobby\<close> issues one update. Applied to the document \<open>d\<close> it sets
  the status to \<^verbatim>\<open>waiting\<close> and the start time to \<^verbatim>\<open>null\<close>, and sets status
  \<^verbatim>\<open>ready\<close> and score 0 in the entry of every player of \<open>rd\<close>, leaving the
  other entries as they are. When the snapshot lists the players of the
  document (as when \<open>d = rd\<close>), every entry of the document is \<^verbatim>\<open>ready\<close> with
  score 0 afterwards, and this, the status \<^verbatim>\<open>waiting\<close> and the empty start time
  still hold after any join into the room.
\<close>

theorem restart_lobby_resets:
  "roomId s = Some rid \<and> rid \<noteq> [] \<and> roomData s = Some rd \<longrightarrow>
     (\<exists>ws. handleRestartLobby s ok = (s, UpdateDoc rid ws # (if ok then [] else [ConsoleError])) \<and>
        status (updateDoc ws d) = Waiting \<and>
        startTime (updateDoc ws d) = None \<and>
        (\<forall>k \<in> set (map fst (players rd)).
           map_of (players (updateDoc ws d)) k = Some (reset_entry Ready (map_of (players d) k))) \<and>
        (\<forall>k. k \<notin> set (map fst (players rd)) \<longrightarrow>
           map_of (players (updateDoc ws d)) k = map_of (players d) k) \<and>
        (wf_room d \<and> set (map fst (players d)) \<subseteq> set (map fst (players rd)) \<longrightarrow>
           all_players ready0 (updateDoc ws d) \<and>
           (\<forall>s2 r2 name ok ws2.
              UpdateDoc r2 ws2 \<in> set (snd (handleJoinRoom s2 r2 name (Found (updateDoc ws d)) ok)) \<longrightarrow>
                status (updateDoc ws2 (updateDoc ws d)) = Waiting \<and>
                startTime (updateDoc ws2 (updateDoc ws d)) = None \<and>
                all_players ready0 (updateDoc ws2 (updateDoc ws d)))))"
proof
  assume a: "roomId s = Some rid \<and> rid \<noteq> [] \<and> roomData s = Some rd"
  let ?ws = "SetStatus Waiting # SetStartTime None # reset_players Ready rd"
  let ?d' = "updateDoc ?ws d"
  have h: "handleRestartLobby s ok = (s, UpdateDoc rid ?ws # (if ok then [] else [ConsoleError]))"
    using a by (simp add: handleRestartLobby_def)
  have st: "status ?d' = Waiting" "startTime ?d' = None"
    by (rule reset_doc)+
  have m: "\<forall>k \<in> set (map fst (players rd)).
           map_of (players ?d') k = Some (reset_entry Ready (map_of (players d) k))"
    "\<forall>k. k \<notin> set (map fst (players rd)) \<longrightarrow> map_of (players ?d') k = map_of (players d) k"
    by (simp_all add: reset_doc(3))
  have all: "wf_room d \<and> set (map fst (players d)) \<subseteq> set (map fst (players rd)) \<longrightarrow>
           all_players ready0 ?d' \<and>
           (\<forall>s2 r2 name ok ws2.
              UpdateDoc r2 ws2 \<in> set (snd (handleJoinRoom s2 r2 name (Found ?d') ok)) \<longrightarrow>
                status (updateDoc ws2 ?d') = Waiting \<and>
                startTime (updateDoc ws2 ?d') = None \<and>
                all_players ready0 (updateDoc ws2 ?d'))"
  proof (intro impI conjI allI)
    assume b: "wf_room d \<and> set (map fst (players d)) \<subseteq> set (map fst (players rd))"
    show r: "all_players ready0 ?d'"
      using b reset_doc(4) [of d rd Ready Waiting None]
      by (simp add: ready0_def [abs_def])
    fix s2 r2 name ok ws2
    assume "UpdateDoc r2 ws2 \<in> set (snd (handleJoinRoom s2 r2 name (Found ?d') ok))"
    then have ws2: "ws2 = [SetPlayer (userId s2) (join_entry (userId s2) name)]"
      by (rule join_write_only)
    show "status (updateDoc ws2 ?d') = Waiting" "startTime (updateDoc ws2 ?d') = None"
      unfolding ws2 join_write_doc by (rule st)+
    show "all_players ready0 (updateDoc ws2 ?d')"
      unfolding ws2 using r by (rule all_players_join) (simp add: ready0_def join_entry_def)
  qed
  from h st m all
  show "\<exists>ws. handleRestartLobby s ok = (s, UpdateDoc rid ws # (if ok then [] else [ConsoleError])) \<and>
        status (updateDoc ws d) = Waiting \<and>
        startTime (updateDoc ws d) = None \<and>
        (\<forall>k \<in> set (map fst (players rd)).
           map_of (players (updateDoc ws d)) k = Some (reset_entry Ready (map_of (players d) k))) \<and>
        (\<forall>k. k \<notin> set (map fst (players rd)) \<longrightarrow>
           map_of (players (updateDoc ws d)) k = map_of (players d) k) \<and>
        (wf_room d \<and> set (map fst (players d)) \<subseteq> set (map fst (players rd)) \<longrightarrow>
           all_players ready0 (updateDoc ws d) \<and>
           (\<forall>s2 r2 name ok ws2.
              UpdateDoc r2 ws2 \<in> set (snd (handleJoinRoom s2 r2 name (Found (updateDoc ws d)) ok)) \<longrightarrow>
                status (updateDoc ws2 (updateDoc ws d)) = Waiting \<and>
                startTime (updateDoc ws2 (updateDoc ws d)) = None \<and>
                all_players ready0 (updateDoc ws2 (updateDoc ws d))))"
    by blast
qed

theorem restart_lobby_resets_witness:
  "\<exists>ws. handleRestartLobby (ex_host_state ex_finished_room) True =
          (ex_host_state ex_finished_room, [UpdateDoc ''ROOM01'' ws]) \<and>
        status (updateDoc ws ex_finished_room) = Waiting \<and>
        startTime (updateDoc ws ex_finished_room) = None \<and>
        all_players ready0 (updateDoc ws ex_finished_room)"
  using restart_lobby_resets [of "ex_host_state ex_finished_room" "''ROOM01''" ex_finished_room True ex_finished_room]
    ex_finished_room_wf ex_host_state_room [of ex_finished_room]
  by simp blast

text \<open>
  C7. In a room, with \<open>rd\<close> the caller's latest snapshot, \<^verbatim>\<open>handleStartMatch\<close>
  issues exactly one update. Applied to the document \<open>d\<close> it sets the status to
  \<^verbatim>\<open>playing\<close> and the start time to the current time, and sets status
  \<^verbatim>\<open>playing\<close> and score 0 in the entry of every player of \<open>rd\<close>, leaving the
  other entries as they are. When the snapshot lists the players of the
  document (as when \<open>d = rd\<close>), every entry of the document is \<^verbatim>\<open>playing\<close> with
  score 0 afterwards.
\<close>

theorem start_match_resets:
  "roomId s = Some rid \<and> rid \<noteq> [] \<and> roomData s = Some rd \<longrightarrow>
     (\<exists>ws. handleStartMatch s now ok = (s, UpdateDoc rid ws # (if ok then [] else [ConsoleError])) \<and>
        status (updateDoc ws d) = Playing \<and>
        startTime (updateDoc ws d) = Some now \<and>
        (\<forall>k \<in> set (map fst (players rd)).
           map_of (players (updateDoc ws d)) k = Some (reset_entry PlayerPlaying (map_of (players d) k))) \<and>
        (\<forall>k. k \<notin> set (map fst (players rd)) \<longrightarrow>
           map_of (players (updateDoc ws d)) k = map_of (players d) k) \<and>
        (wf_room d \<and> set (map fst (players d)) \<subseteq> set (map fst (players rd)) \<longrightarrow>
           all_players playing0 (updateDoc ws d)))"
proof
  assume a: "roomId s = Some rid \<and> rid \<noteq> [] \<and> roomData s = Some rd"
  let ?ws = "SetStatus Playing # SetStartTime (Some now) # reset_players PlayerPlaying rd"
  have "handleStartMatch s now ok = (s, UpdateDoc rid ?ws # (if ok then [] else [ConsoleError]))"
    using a by (simp add: handleStartMatch_def)
  moreover have "status (updateDoc ?ws d) = Playing" "startTime (updateDoc ?ws d) = Some now"
    by (rule reset_doc)+
  moreover have "\<forall>k \<in> set (map fst (players rd)).
           map_of (players (updateDoc ?ws d)) k = Some (reset_entry PlayerPlaying (map_of (players d) k))"
    "\<forall>k. k \<notin> set (map fst (players rd)) \<longrightarrow>
           map_of (players (updateDoc ?ws d)) k = map_of (players d) k"
    by (simp_all add: reset_doc(3))
  moreover have "wf_room d \<and> set (map fst (players d)) \<subseteq> set (map fst (players rd)) \<longrightarrow>
           all_players playing0 (updateDoc ?ws d)"
    using reset_doc(4) [of d rd PlayerPlaying Playing "Some now"]
    by (simp add: playing0_def [abs_def])
  ultimately show "\<exists>ws. handleStartMatch s now ok = (s, UpdateDoc rid ws # (if ok then [] else [ConsoleError])) \<and>
        status (updateDoc ws d) = Playing \<and>
        startTime (updateDoc ws d) = Some now \<and>
        (\<forall>k \<in> set (map fst (players rd)).
           map_of (players (updateDoc ws d)) k = Some (reset_entry PlayerPlaying (map_of (players d) k))) \<and>
        (\<forall>k. k \<notin> set (map fst (players rd)) \<longrightarrow>
           map_of (players (updateDoc ws d)) k = map_of (players d) k) \<and>
        (wf_room d \<and> set (map fst (players d)) \<subseteq> set (map fst (players rd)) \<longrightarrow>
           all_players playing0 (updateDoc ws d))"
    by blast
qed

theorem start_match_resets_witness:
  "\<exists>ws. handleStartMatch (ex_host_state ex_finished_room) 200000 True =
          (ex_host_state ex_finished_room, [UpdateDoc ''ROOM01'' ws]) \<and>
        status (updateDoc ws ex_finished_room) = Playing \<and>
        startTime (updateDoc ws ex_finished_room) = Some 200000 \<and>
        all_players playing0 (updateDoc ws ex_finished_room)"
  using start_match_resets [of "ex_host_state ex_finished_room" "''ROOM01''" ex_finished_room 200000 True ex_finished_room]
    ex_finished_room_wf ex_host_state_room [of ex_finished_room]
  by simp blast

section \<open>Throttled score reports\<close>

lemma handleScoreUpdate_cases:
  "(snd (handleScoreUpdate s now sc) = [] \<and> lastScoreSync (fst (handleScoreUpdate s now sc)) = lastScoreSync s) \<or>
   (\<exists>rid. roomId s = Some rid \<and> rid \<noteq> [] \<and> userId s \<noteq> [] \<and> now - lastScoreSync s > 2000 \<and>
      snd (handleScoreUpdate s now sc) = [UpdateDoc rid [SetPlayerScore (userId s) (current sc)]] \<and>
      lastScoreSync (fst (handleScoreUpdate s now sc)) = now)"
  by (simp add: handleScoreUpdate_def Let_def split: option.splits)

lemma run_scores_spaced:
  "sorted_wrt (\<lambda>a b. b - a > 2000) (lastScoreSync s # map fst (snd (run_scores s evs)))"
proof (induction evs arbitrary: s)
  case Nil
  show ?case by simp
next
  case (Cons ev evs)
  obtain now sc where ev: "ev = (now, sc)" by (cases ev)
  let ?s1 = "fst (handleScoreUpdate s now sc)"
  let ?rest = "map fst (snd (run_scores ?s1 evs))"
  have ih: "sorted_wrt (\<lambda>a b. b - a > 2000) (lastScoreSync ?s1 # ?rest)"
    by (rule Cons.IH)
  from handleScoreUpdate_cases [of s now sc] show ?case
  proof
    assume "snd (handleScoreUpdate s now sc) = [] \<and> lastScoreSync ?s1 = lastScoreSync s"
    with ih show ?thesis by (simp add: ev split_beta)
  next
    assume "\<exists>rid. roomId s = Some rid \<and> rid \<noteq> [] \<and> userId s \<noteq> [] \<and> now - lastScoreSync s > 2000 \<and>
      snd (handleScoreUpdate s now sc) = [UpdateDoc rid [SetPlayerScore (userId s) (current sc)]] \<and>
      lastScoreSync ?s1 = now"
    then obtain rid where w: "now - lastScoreSync s > 2000"
      "snd (handleScoreUpdate s now sc) = [UpdateDoc rid [SetPlayerScore (userId s) (current sc)]]"
      "lastScoreSync ?s1 = now" by blast
    from ih w(3) have "sorted_wrt (\<lambda>a b. b - a > 2000) (now # ?rest)" by simp
    moreover from this w(1) have "\<forall>x \<in> set ?rest. x - lastScoreSync s > 2000" by fastforce
    ultimately show ?thesis using w by (simp add: ev split_beta)
  qed
qed

lemma run_scores_writes:
  "(t, e) \<in> set (snd (run_scores s evs)) \<Longrightarrow>
     \<exists>sc rid. (t, sc) \<in> set evs \<and> roomId s = Some rid \<and>
       e = UpdateDoc rid [SetPlayerScore (userId s) (current sc)]"
proof (induction evs arbitrary: s)
  case Nil
  then show ?case by simp
next
  case (Cons ev evs)
  obtain now sc where ev: "ev = (now, sc)" by (cases ev)
  let ?s1 = "fst (handleScoreUpdate s now sc)"
  from Cons.prems have "(t, e) \<in> Pair now ` set (snd (handleScoreUpdate s now sc)) \<or>
      (t, e) \<in> set (snd (run_scores ?s1 evs))"
    by (auto simp add: ev split_beta)
  then show ?case
  proof
    assume "(t, e) \<in> Pair now ` set (snd (handleScoreUpdate s now sc))"
    then show ?thesis
      using handleScoreUpdate_cases [of s now sc] by (auto simp add: ev)
  next
    assume "(t, e) \<in> set (snd (run_scores ?s1 evs))"
    from Cons.IH [OF this] show ?thesis
      by (auto simp add: ev handleScoreUpdate_keeps)
  qed
qed

lemma run_scores_append:
  "run_scores s (xs @ ys) =
     (let (s1, e1) = run_scores s xs; (s2, e2) = run_scores s1 ys in (s2, e1 @ e2))"
  by (induction xs arbitrary: s) (auto simp add: split_beta)

lemma run_scores_burst:
  assumes "\<forall>(t, sc) \<in> set burst. t - lastScoreSync s \<le> 2000"
  shows "snd (run_scores s burst) = [] \<and>
         lastScoreSync (fst (run_scores s burst)) = lastScoreSync s \<and>
         roomId (fst (run_scores s burst)) = roomId s \<and>
         userId (fst (run_scores s burst)) = userId s"
  using assms
proof (induction burst arbitrary: s)
  case Nil
  show ?case by simp
next
  case (Cons ev evs)
  obtain now sc where ev: "ev = (now, sc)" by (cases ev)
  let ?s1 = "fst (handleScoreUpdate s now sc)"
  have late: "now - lastScoreSync s \<le> 2000"
    using Cons.prems by (simp add: ev)
  have quiet: "snd (handleScoreUpdate s now sc) = []" "lastScoreSync ?s1 = lastScoreSync s"
    using late handleScoreUpdate_cases [of s now sc] by auto
  have "\<forall>(t, sc) \<in> set evs. t - lastScoreSync ?s1 \<le> 2000"
    using Cons.prems by (simp add: quiet)
  from Cons.IH [OF this] show ?case
    by (simp add: ev split_beta quiet handleScoreUpdate_keeps)
qed

text \<open>
  C8. Over any sequence of score updates, the times of the issued score writes,
  preceded by the time of the last report before the sequence, are pairwise
  more than 2000 ms apart; every write sets only the caller's own score, to
  the score of the update that issued it. A burst of updates within 2000 ms of
  the last report writes nothing, and the first update after the interval
  writes its own, most recent, score.
\<close>

theorem score_reports_throttled:
  "sorted_wrt (\<lambda>a b. b - a > 2000) (lastScoreSync s # map fst (snd (run_scores s evs))) \<and>
   (\<forall>(t, e) \<in> set (snd (run_scores s evs)).
      \<exists>sc rid. (t, sc) \<in> set evs \<and> roomId s = Some rid \<and>
        e = UpdateDoc rid [SetPlayerScore (userId s) (current sc)]) \<and>
   ((\<forall>(t, sc) \<in> set burst. t - lastScoreSync s \<le> 2000) \<and> now - lastScoreSync s > 2000 \<and>
    roomId s = Some rid \<and> rid \<noteq> [] \<and> userId s \<noteq> [] \<longrightarrow>
      snd (run_scores s (burst @ [(now, sc)])) =
        [(now, UpdateDoc rid [SetPlayerScore (userId s) (current sc)])])"
proof (intro conjI impI)
  show "sorted_wrt (\<lambda>a b. b - a > 2000) (lastScoreSync s # map fst (snd (run_scores s evs)))"
    by (rule run_scores_spaced)
  show "\<forall>(t, e) \<in> set (snd (run_scores s evs)).
      \<exists>sc rid. (t, sc) \<in> set evs \<and> roomId s = Some rid \<and>
        e = UpdateDoc rid [SetPlayerScore (userId s) (current sc)]"
    using run_scores_writes by blast
  assume a: "(\<forall>(t, sc) \<in> set burst. t - lastScoreSync s \<le> 2000) \<and> now - lastScoreSync s > 2000 \<and>
    roomId s = Some rid \<and> rid \<noteq> [] \<and> userId s \<noteq> []"
  then have b: "\<forall>(t, sc) \<in> set burst. t - lastScoreSync s \<le> 2000" by simp
  let ?s1 = "fst (run_scores s burst)"
  have "snd (handleScoreUpdate ?s1 now sc) = [UpdateDoc rid [SetPlayerScore (userId s) (current sc)]]"
    using a run_scores_burst [OF b] by (simp add: handleScoreUpdate_def Let_def)
  then show "snd (run_scores s (burst @ [(now, sc)])) =
        [(now, UpdateDoc rid [SetPlayerScore (userId s) (current sc)])]"
    using run_scores_burst [OF b] by (simp add: run_scores_append split_beta)
qed

theorem score_reports_throttled_witness:
  "snd (run_scores (ex_state PLAYING ''bob'') [(1000, ex_score_at 10), (1500, ex_score_at 20), (2500, ex_score_at 30)]) =
     [(2500, UpdateDoc ''ROOM01'' [SetPlayerScore ''bob'' 30])]"
proof -
  have pre: "(\<forall>(t, sc) \<in> set [(1000::int, ex_score_at 10), (1500, ex_score_at 20)].
        t - lastScoreSync (ex_state PLAYING ''bob'') \<le> 2000) \<and>
      2500 - lastScoreSync (ex_state PLAYING ''bob'') > 2000 \<and>
      roomId (ex_state PLAYING ''bob'') = Some ''ROOM01'' \<and> ''ROOM01'' \<noteq> [] \<and>
      userId (ex_state PLAYING ''bob'') \<noteq> []"
    by (simp add: ex_state_def)
  have v: "userId (ex_state PLAYING ''bob'') = ''bob''" "current (ex_score_at 30) = 30"
    by (simp_all add: ex_state_def ex_score_at_def)
  show ?thesis
    using score_reports_throttled [of "ex_state PLAYING ''bob''" "[]"
        "[(1000, ex_score_at 10), (1500, ex_score_at 20)]" 2500 "''ROOM01''" "ex_score_at 30"]
      pre v
    by simp
qed

section \<open>Subscription errors\<close>

text \<open>
  C9. On an error of the room subscription the synchronizer clears the room
  reference and returns to the menu; it only logs the error, issues no write,
  and the listener effect that runs next subscribes to nothing.
\<close>

theorem subscription_error_drops_room:
  "roomId (fst (on_snapshot_error s)) = None \<and>
   gameState (fst (on_snapshot_error s)) = MENU \<and>
   snd (on_snapshot_error s) = [ConsoleError] \<and>
   listener (room_listener (fst (on_snapshot_error s))) = None \<and>
   roomData (room_listener (fst (on_snapshot_error s))) = None \<and>
   room_listener (room_listener (fst (on_snapshot_error s))) = room_listener (fst (on_snapshot_error s))"
  by (simp add: on_snapshot_error_def room_listener_def in_room_def)

theorem subscription_error_drops_room_witness:
  "roomId (fst (on_snapshot_error (ex_state PLAYING ''bob''))) = None \<and>
   gameState (fst (on_snapshot_error (ex_state PLAYING ''bob''))) = MENU \<and>
   listener (room_listener (fst (on_snapshot_error (ex_state PLAYING ''bob'')))) = None"
  using subscription_error_drops_room [of "ex_state PLAYING ''bob''"] by simp

section \<open>Joining one's own room\<close>

lemma host_count_0: "host_count d = 0 \<longleftrightarrow> (\<forall>(k, p) \<in> set (players d). isHost p \<noteq> Some True)"
  by (auto simp add: host_count_def filter_empty_conv)

lemma no_host_upd_entry:
  assumes "\<forall>(k, p) \<in> set ps. isHost p \<noteq> Some True" and "\<And>p. isHost (f p) = isHost p"
  shows "\<forall>(k, p) \<in> set (upd_entry pid f ps). isHost p \<noteq> Some True"
proof -
  have "isHost (f (case map_of ps pid of None \<Rightarrow> empty_entry | Some p \<Rightarrow> p)) \<noteq> Some True"
    using assms by (auto simp add: empty_entry_def split: option.splits dest: map_of_SomeD)
  then show ?thesis
    using assms(1) set_upd_entry [of pid f ps] by auto
qed

lemma apply_write_no_host:
  assumes "host_count d = 0" and "keeps_hosts w"
  shows "host_count (apply_write w d) = 0"
proof (cases w)
  case (SetPlayer k e)
  then show ?thesis
    using assms set_update_subset [of k e "players d"] by (auto simp add: host_count_0)
next
  case (SetPlayerScore k v)
  then show ?thesis
    using assms(1) no_host_upd_entry [of "players d" "\<lambda>p. p\<lparr>score := Some v\<rparr>" k]
    by (simp add: host_count_0)
next
  case (SetPlayerStatus k st)
  then show ?thesis
    using assms(1) no_host_upd_entry [of "players d" "\<lambda>p. p\<lparr>pstatus := Some st\<rparr>" k]
    by (simp add: host_count_0)
qed (use assms in \<open>simp_all add: host_count_def\<close>)

lemma updateDoc_no_host:
  "host_count d = 0 \<Longrightarrow> list_all keeps_hosts ws \<Longrightarrow> host_count (updateDoc ws d) = 0"
  unfolding updateDoc_def
  by (induction ws arbitrary: d) (simp_all add: apply_write_no_host)

lemma reset_players_keep: "list_all keeps_hosts (reset_players st d)"
  by (simp add: reset_players_def list_all_iff)

lemma app_update_keeps: "app_update ws \<Longrightarrow> list_all keeps_hosts ws"
proof (induction rule: app_update.induct)
  case (from_snapshot rid ws s now snap)
  then show ?case
    using on_snapshot_updates [of rid ws s now snap] by (auto simp add: result_write_def)
next
  case (from_join rid ws s r name rd ok)
  then show ?case
    using join_write_only [of rid ws s r name rd ok] by (simp add: join_entry_def)
next
  case (from_start rid ws s now ok)
  then show ?case
    by (auto simp add: handleStartMatch_def reset_players_keep split: option.splits if_splits)
next
  case (from_restart rid ws s ok)
  then show ?case
    by (auto simp add: handleRestartLobby_def reset_players_keep split: option.splits if_splits)
next
  case (from_score rid ws s now sc)
  then show ?case
    by (auto simp add: handleScoreUpdate_def Let_def split: option.splits if_splits)
next
  case (from_game_over rid ws s sc)
  then show ?case
    by (auto simp add: handleGameOver_def result_write_def Let_def split: option.splits if_splits)
qed

lemma app_updates_no_host:
  "host_count d = 0 \<Longrightarrow> list_all app_update wss \<Longrightarrow> host_count (fold updateDoc wss d) = 0"
  by (induction wss arbitrary: d) (simp_all add: updateDoc_no_host app_update_keeps)

lemma no_host_no_arbitration:
  assumes "host_count d = 0"
  shows "UpdateDoc r [SetStatus Finished] \<notin> set (snd (on_snapshot s now (Some d)))"
proof
  assume "UpdateDoc r [SetStatus Finished] \<in> set (snd (on_snapshot s now (Some d)))"
  from on_snapshot_updates [OF this] have "my_isHost (userId s) d"
    by (auto simp add: result_write_def)
  then show False
    using assms by (auto simp add: my_isHost_def host_count_0 split: option.splits dest: map_of_SomeD)
qed

lemma ex_start_write_app: "list_all app_update [ex_start_write]"
proof -
  have "UpdateDoc ''ROOM01'' ex_start_write \<in> set (snd (handleStartMatch (ex_host_state ex_own_room) 5000 True))"
    by (simp add: handleStartMatch_def ex_host_state_def ex_state_def ex_start_write_def)
  then have "app_update ex_start_write"
    by (rule app_update.from_start)
  then show ?thesis by simp
qed

text \<open>
  C10. The entry that \<^verbatim>\<open>handleJoinRoom\<close> writes always has \<^verbatim>\<open>isHost: false\<close>,
  whatever entry the caller had in the room, and it replaces that entry. So
  when the participant that created a room, its only host, joins that room,
  the write replaces the host entry and the room has no host left. No update
  that \<^verbatim>\<open>App\<close> issues sets the flag again: after any sequence of such updates
  the room still has no host, and no participant's snapshot callback issues
  the \<^verbatim>\<open>finished\<close> write for it, at any time.
\<close>

theorem join_own_room_drops_host:
  "(\<forall>d r n ok r' ws.
      UpdateDoc r' ws \<in> set (snd (handleJoinRoom s r n (Found d) ok)) \<longrightarrow>
        (\<exists>e. ws = [SetPlayer (userId s) e] \<and> isHost e = Some False \<and>
             map_of (players (updateDoc ws d)) (userId s) = Some e)) \<and>
   (userId s \<noteq> [] \<and> \<not> doc_throws code \<longrightarrow>
     (let d0 = newRoom code now (userId s) name;
          s1 = fst (handleCreateRoom s now code name True);
          e = \<lparr>uid = Some (userId s), displayName = Some name2, score = Some 0,
                isHost = Some False, pstatus = Some Ready\<rparr>;
          w = [SetPlayer (userId s) e];
          d1 = updateDoc w d0
      in snd (handleCreateRoom s now code name True) = [SetDoc code d0] \<and>
         (\<exists>p. players d0 = [(userId s, p)] \<and> isHost p = Some True) \<and>
         host_count d0 = 1 \<and>
         handleJoinRoom s1 code name2 (Found d0) True = (s1, [UpdateDoc code w]) \<and>
         players d1 = [(userId s, e)] \<and>
         host_count d1 = 0 \<and>
         (\<forall>wss. list_all app_update wss \<longrightarrow>
            host_count (fold updateDoc wss d1) = 0 \<and>
            (\<forall>s' t r. UpdateDoc r [SetStatus Finished] \<notin>
               set (snd (on_snapshot s' t (Some (fold updateDoc wss d1))))))))"
proof (intro conjI impI allI)
  fix d r n ok r' ws
  assume "UpdateDoc r' ws \<in> set (snd (handleJoinRoom s r n (Found d) ok))"
  then have "ws = [SetPlayer (userId s) (join_entry (userId s) n)]"
    by (rule join_write_only)
  then show "\<exists>e. ws = [SetPlayer (userId s) e] \<and> isHost e = Some False \<and>
             map_of (players (updateDoc ws d)) (userId s) = Some e"
    by (simp add: join_write_doc join_entry_def)
next
  assume u: "userId s \<noteq> [] \<and> \<not> doc_throws code"
  let ?d0 = "newRoom code now (userId s) name"
  let ?s1 = "fst (handleCreateRoom s now code name True)"
  let ?e = "\<lparr>uid = Some (userId s), displayName = Some name2, score = Some 0,
                isHost = Some False, pstatus = Some Ready\<rparr>"
  let ?w = "[SetPlayer (userId s) ?e]"
  let ?d1 = "updateDoc ?w ?d0"
  have c: "snd (handleCreateRoom s now code name True) = [SetDoc code ?d0]"
    and s1: "?s1 = s\<lparr>roomId := Some code, gameState := LOBBY\<rparr>"
    using u by (simp_all add: handleCreateRoom_def)
  have p0: "\<exists>p. players ?d0 = [(userId s, p)] \<and> isHost p = Some True"
    by (simp add: newRoom_def)
  have h0: "host_count ?d0 = 1"
    by (simp add: host_count_def newRoom_def)
  have j: "handleJoinRoom ?s1 code name2 (Found ?d0) True = (?s1, [UpdateDoc code ?w])"
    using u unfolding s1
    by (simp add: handleJoinRoom_def newRoom_def MAX_PLAYERS_PER_ROOM_def join_entry_def)
  have p1: "players ?d1 = [(userId s, ?e)]"
    by (simp add: updateDoc_def newRoom_def)
  have h1: "host_count ?d1 = 0"
    unfolding host_count_def p1 by simp
  have perm: "\<forall>wss. list_all app_update wss \<longrightarrow>
            host_count (fold updateDoc wss ?d1) = 0 \<and>
            (\<forall>s' t r. UpdateDoc r [SetStatus Finished] \<notin>
               set (snd (on_snapshot s' t (Some (fold updateDoc wss ?d1)))))"
    using app_updates_no_host [OF h1] no_host_no_arbitration by blast
  from c p0 h0 j p1 h1 perm show "let d0 = newRoom code now (userId s) name;
          s1 = fst (handleCreateRoom s now code name True);
          e = \<lparr>uid = Some (userId s), displayName = Some name2, score = Some 0,
                isHost = Some False, pstatus = Some Ready\<rparr>;
          w = [SetPlayer (userId s) e];
          d1 = updateDoc w d0
      in snd (handleCreateRoom s now code name True) = [SetDoc code d0] \<and>
         (\<exists>p. players d0 = [(userId s, p)] \<and> isHost p = Some True) \<and>
         host_count d0 = 1 \<and>
         handleJoinRoom s1 code name2 (Found d0) True = (s1, [UpdateDoc code w]) \<and>
         players d1 = [(userId s, e)] \<and>
         host_count d1 = 0 \<and>
         (\<forall>wss. list_all app_update wss \<longrightarrow>
            host_count (fold updateDoc wss d1) = 0 \<and>
            (\<forall>s' t r. UpdateDoc r [SetStatus Finished] \<notin>
               set (snd (on_snapshot s' t (Some (fold updateDoc wss d1))))))"
    unfolding Let_def by blast
qed

theorem join_own_room_drops_host_witness:
  "host_count (newRoom ''ROOM01'' 1000 ''alice'' ''Alice'') = 1 \<and>
   snd (handleJoinRoom (fst (handleCreateRoom ex_menu_state 1000 ''ROOM01'' ''Alice'' True)) ''ROOM01'' ''Alice2''
          (Found (newRoom ''ROOM01'' 1000 ''alice'' ''Alice'')) True) =
     [UpdateDoc ''ROOM01'' [SetPlayer ''alice''
        \<lparr>uid = Some ''alice'', displayName = Some ''Alice2'', score = Some 0,
         isHost = Some False, pstatus = Some Ready\<rparr>]] \<and>
   players ex_own_room =
     [(''alice'', \<lparr>uid = Some ''alice'', displayName = Some ''Alice2'', score = Some 0,
                   isHost = Some False, pstatus = Some Ready\<rparr>)] \<and>
   host_count ex_own_room = 0 \<and>
   host_count (updateDoc ex_start_write ex_own_room) = 0 \<and>
   UpdateDoc ''ROOM01'' [SetStatus Finished] \<notin>
     set (snd (on_snapshot (ex_state PLAYING ''alice'') 999999 (Some (updateDoc ex_start_write ex_own_room))))"
proof -
  have u: "userId ex_menu_state = ''alice''" "''alice'' \<noteq> []" "\<not> doc_throws ''ROOM01''"
    by (simp_all add: ex_menu_state_def ex_state_def doc_throws_def)
  have own: "ex_own_room = updateDoc [SetPlayer ''alice''
        \<lparr>uid = Some ''alice'', displayName = Some ''Alice2'', score = Some 0,
         isHost = Some False, pstatus = Some Ready\<rparr>] (newRoom ''ROOM01'' 1000 ''alice'' ''Alice'')"
    by (simp add: ex_own_room_def join_entry_def)
  show ?thesis
    using join_own_room_drops_host [of ex_menu_state "''ROOM01''" 1000 "''Alice''" "''Alice2''"]
      u ex_start_write_app
    unfolding Let_def own [symmetric] u
    by (auto simp add: own [symmetric] dest!: spec [of _ "[ex_start_write]"])
qed

end
